theory Spec2Isabelle
  imports Complex_Main
begin

section \<open>Data model\<close>

text \<open>
  The simulation works on JavaScript numbers and \<open>Float32Array\<close> buffers. The embedding
  uses exact real arithmetic for every numeric value (rounding is not modelled), natural
  numbers for grid indices and integers for the signed offsets of the impact stencil.
  A grid of \<open>resolution \<times> resolution\<close> cells is the row-major list the source indexes
  with \<open>y * res + x\<close>. A typed array ignores a write beyond its end, as \<open>xs[i := v]\<close> does;
  every read the code performs is within range when the buffers have the sizes the constructor
  gives them (\<open>wellFormed\<close>), which the theorems assume.
  The kernels of the GPU classes are embedded as they are written. \<open>renderer.compute\<close>
  is code of the rendering library, not of this repository; the dispatch definitions give
  the texture a dispatch leaves when the renderer runs the kernel once per instance
  index. \<open>init\<close> of \<open>RippleSimulation\<close> always switches to the CPU path, and the
  theorems about the ripple simulation are about that path: none of them states a value
  that a dispatch of the wave or impact kernel stores.
\<close>

text \<open>A pending ripple of the CPU path: \<open>{ u, v, strength }\<close>.\<close>

record ripple =
  rip_u :: real
  rip_v :: real
  rip_strength :: real

text \<open>One RGBA texel of a storage texture: R = height, G = velocity, B = normal.x, A = normal.y.\<close>

record texel =
  tex_r :: real
  tex_g :: real
  tex_b :: real
  tex_a :: real

text \<open>A pending impact of the GPU path: \<open>{ x, y, strength }\<close> in grid units.\<close>

record impact =
  imp_x :: real
  imp_y :: real
  imp_strength :: real

datatype texture_ref = TextureA | TextureB

text \<open>
  \<open>GPURippleSimulation\<close>. The compute nodes built by \<open>buildComputeNodes\<close> close over the
  values that \<open>waveSpeed\<close> and \<open>damping\<close> had when they were built; these are the fields
  \<open>node_waveSpeed\<close> and \<open>node_damping\<close>. The resolution is never reassigned.
\<close>

record GPURippleSimulation =
  gpu_resolution :: nat
  gpu_waveSpeed :: real
  gpu_damping :: real
  node_waveSpeed :: real
  node_damping :: real
  pendingImpacts :: "impact list"
  pingPong :: nat
  textureA :: "texel list"
  textureB :: "texel list"
  lastComputedTexture :: "texture_ref option"

text \<open>
  \<open>RippleSimulation\<close> (the variant with GPU delegation). \<open>heightTexture\<close> is the
  \<open>image.data\<close> array of the data texture, four floats per cell.
\<close>

record RippleSimulation =
  resolution :: nat
  waveSpeed :: real
  damping :: real
  ripples :: "ripple list"
  useGPU :: bool
  gpuSimulation :: "GPURippleSimulation option"
  edgeFadeWidth :: real
  edgeFadeStrength :: real
  heightCurrent :: "real list"
  heightPrevious :: "real list"
  heightNext :: "real list"
  heightTexture :: "real list"

section \<open>GPU path\<close>

definition zeroTexel :: texel where
  "zeroTexel = \<lparr>tex_r = 0, tex_g = 0, tex_b = 0, tex_a = 0\<rparr>"

definition textureLoad :: "texel list \<Rightarrow> nat \<Rightarrow> nat \<Rightarrow> nat \<Rightarrow> texel" where
  "textureLoad t res x y = t ! (y * res + x)"

definition textureStore :: "texel list \<Rightarrow> nat \<Rightarrow> nat \<Rightarrow> nat \<Rightarrow> texel \<Rightarrow> texel list" where
  "textureStore t res x y c = (if x < res \<and> y < res then t[y * res + x := c] else t)"

text \<open>One invocation of the wave kernel: reads \<open>src\<close>, stores one texel into \<open>dst\<close>.\<close>

definition waveSimulationFn ::
  "nat \<Rightarrow> real \<Rightarrow> real \<Rightarrow> texel list \<Rightarrow> nat \<Rightarrow> texel list \<Rightarrow> texel list" where
  "waveSimulationFn res wSpeed damp src idx dst =
     (let x = idx mod res;
          y = idx div res;
          isBoundary = (x \<le> 0 \<or> x \<ge> res - 1 \<or> y \<le> 0 \<or> y \<ge> res - 1)
      in if isBoundary then
           textureStore dst res x y \<lparr>tex_r = 0, tex_g = 0, tex_b = 0, tex_a = 1\<rparr>
         else
           (let current = textureLoad src res x y;
                left = textureLoad src res (x - 1) y;
                right = textureLoad src res (x + 1) y;
                up = textureLoad src res x (y - 1);
                down = textureLoad src res x (y + 1);
                height = tex_r current;
                velocity = tex_g current;
                laplacian = tex_r left + tex_r right + tex_r up + tex_r down - height * 4;
                c2 = wSpeed * wSpeed;
                newVelocity = (velocity + laplacian * c2) * damp;
                newHeight = height + newVelocity;
                nx = (tex_r left - tex_r right) * 2;
                ny = (tex_r up - tex_r down) * 2
            in textureStore dst res x y
                 \<lparr>tex_r = newHeight, tex_g = newVelocity, tex_b = nx, tex_a = ny\<rparr>))"

text \<open>
  The dispatch \<open>compute(res * res)\<close>, for a renderer that runs the kernel: one invocation
  per instance index.
\<close>

definition computeWave :: "nat \<Rightarrow> real \<Rightarrow> real \<Rightarrow> texel list \<Rightarrow> texel list \<Rightarrow> texel list" where
  "computeWave res wSpeed damp src dst =
     fold (waveSimulationFn res wSpeed damp src) [0..<res * res] dst"

text \<open>One invocation of the impact kernel: reads and writes its own texel of \<open>target\<close>.\<close>

definition impactFn :: "nat \<Rightarrow> real \<Rightarrow> real \<Rightarrow> real \<Rightarrow> nat \<Rightarrow> texel list \<Rightarrow> texel list" where
  "impactFn res cx cy strength idx target =
     (let x = idx mod res;
          y = idx div res;
          dx = real x - cx;
          dy = real y - cy;
          dist = sqrt (dx * dx + dy * dy);
          radius = 3
      in if dist < radius then
           (let current = textureLoad target res x y;
                falloff = 1 - dist / radius;
                impulse = strength * falloff * falloff;
                newHeight = tex_r current + impulse
            in textureStore target res x y (current\<lparr>tex_r := newHeight\<rparr>))
         else target)"

definition computeImpact :: "nat \<Rightarrow> impact \<Rightarrow> texel list \<Rightarrow> texel list" where
  "computeImpact res imp target =
     fold (impactFn res (imp_x imp) (imp_y imp) (imp_strength imp)) [0..<res * res] target"

definition buildComputeNodes :: "GPURippleSimulation \<Rightarrow> GPURippleSimulation" where
  "buildComputeNodes g = g\<lparr>node_waveSpeed := gpu_waveSpeed g, node_damping := gpu_damping g\<rparr>"

text \<open>The constructor; storage textures start zero-filled.\<close>

definition GPURippleSimulation_new :: "nat \<Rightarrow> GPURippleSimulation" where
  "GPURippleSimulation_new res =
     buildComputeNodes
       \<lparr>gpu_resolution = res, gpu_waveSpeed = 0.3, gpu_damping = 0.995,
        node_waveSpeed = 0, node_damping = 0,
        pendingImpacts = [], pingPong = 0,
        textureA = replicate (res * res) zeroTexel,
        textureB = replicate (res * res) zeroTexel,
        lastComputedTexture = None\<rparr>"

definition gpu_addRipple :: "GPURippleSimulation \<Rightarrow> real \<Rightarrow> real \<Rightarrow> real \<Rightarrow> GPURippleSimulation" where
  "gpu_addRipple g x z strength =
     (let lakeSize = 20;
          u = (x / lakeSize) + 0.5;
          v = (z / lakeSize) + 0.5
      in if u \<ge> 0 \<and> u \<le> 1 \<and> v \<ge> 0 \<and> v \<le> 1 then
           g\<lparr>pendingImpacts := pendingImpacts g @
               [\<lparr>imp_x = u * real (gpu_resolution g), imp_y = v * real (gpu_resolution g),
                 imp_strength = strength\<rparr>]\<rparr>
         else g)"

text \<open>The source texture of a step, after all pending impacts were injected into it.\<close>

definition gpu_inject :: "GPURippleSimulation \<Rightarrow> texel list" where
  "gpu_inject g =
     fold (computeImpact (gpu_resolution g)) (pendingImpacts g)
       (if pingPong g = 0 then textureA g else textureB g)"

definition gpu_update :: "GPURippleSimulation \<Rightarrow> GPURippleSimulation" where
  "gpu_update g =
     (let res = gpu_resolution g;
          currentTexture = gpu_inject g
      in if pingPong g = 0 then
           g\<lparr>pendingImpacts := [],
             textureA := currentTexture,
             textureB := computeWave res (node_waveSpeed g) (node_damping g) currentTexture (textureB g),
             lastComputedTexture := Some TextureB,
             pingPong := 1\<rparr>
         else
           g\<lparr>pendingImpacts := [],
             textureB := currentTexture,
             textureA := computeWave res (node_waveSpeed g) (node_damping g) currentTexture (textureA g),
             lastComputedTexture := Some TextureA,
             pingPong := 0\<rparr>)"

definition gpu_getHeightTexture :: "GPURippleSimulation \<Rightarrow> texel list" where
  "gpu_getHeightTexture g =
     (case lastComputedTexture g of
        Some TextureB \<Rightarrow> textureB g
      | _ \<Rightarrow> textureA g)"

section \<open>CPU path\<close>

text \<open>The constructor followed by \<open>init\<close>, which always ends in CPU mode.\<close>

definition RippleSimulation_new :: "nat \<Rightarrow> RippleSimulation" where
  "RippleSimulation_new res =
     \<lparr>resolution = res, waveSpeed = 0.3, damping = 0.985, ripples = [],
      useGPU = False, gpuSimulation = None,
      edgeFadeWidth = 25, edgeFadeStrength = 0.92,
      heightCurrent = replicate (res * res) 0,
      heightPrevious = replicate (res * res) 0,
      heightNext = replicate (res * res) 0,
      heightTexture = replicate (res * res * 4) 0\<rparr>"

definition getEdgeFactor :: "RippleSimulation \<Rightarrow> nat \<Rightarrow> nat \<Rightarrow> nat \<Rightarrow> real" where
  "getEdgeFactor s x y res =
     (let minDist = min (min (min (int x) (int res - 1 - int x)) (int y)) (int res - 1 - int y)
      in if real_of_int minDist \<ge> edgeFadeWidth s then 1
         else (let t = real_of_int minDist / edgeFadeWidth s in t * t * (3 - 2 * t)))"

definition addRipple :: "RippleSimulation \<Rightarrow> real \<Rightarrow> real \<Rightarrow> real \<Rightarrow> RippleSimulation" where
  "addRipple s x z strength =
     (case (useGPU s, gpuSimulation s) of
        (True, Some g) \<Rightarrow> s\<lparr>gpuSimulation := Some (gpu_addRipple g x z strength)\<rparr>
      | _ \<Rightarrow>
        (let lakeSize = 20;
             u = (x / lakeSize) + 0.5;
             v = (z / lakeSize) + 0.5
         in if u \<ge> 0 \<and> u \<le> 1 \<and> v \<ge> 0 \<and> v \<le> 1 then
              s\<lparr>ripples := ripples s @ [\<lparr>rip_u = u, rip_v = v, rip_strength = strength\<rparr>]\<rparr>
            else s))"

text \<open>The body of the nested injection iteration for one offset \<open>(dy, dx)\<close>.\<close>

definition injectCell :: "nat \<Rightarrow> real \<Rightarrow> int \<Rightarrow> int \<Rightarrow> int \<times> int \<Rightarrow> real list \<Rightarrow> real list" where
  "injectCell res strength cx cy = (\<lambda>(dy, dx) h.
     (let radius = 3;
          px = cx + dx;
          py = cy + dy
      in if px \<ge> 0 \<and> px < int res \<and> py \<ge> 0 \<and> py < int res then
           (let dist = sqrt (real_of_int (dx * dx + dy * dy))
            in if dist \<le> radius then
                 (let falloff = 1 - (dist / radius);
                      idx = nat (py * int res + px)
                  in h[idx := h ! idx + strength * falloff * falloff])
               else h)
         else h))"

definition injectRipple :: "nat \<Rightarrow> ripple \<Rightarrow> real list \<Rightarrow> real list" where
  "injectRipple res rp h =
     (let cx = \<lfloor>rip_u rp * real res\<rfloor>;
          cy = \<lfloor>rip_v rp * real res\<rfloor>
      in fold (\<lambda>dy. fold (\<lambda>dx. injectCell res (rip_strength rp) cx cy (dy, dx)) [-3..3]) [-3..3] h)"

definition injectRipples :: "RippleSimulation \<Rightarrow> RippleSimulation" where
  "injectRipples s =
     s\<lparr>heightCurrent := fold (injectRipple (resolution s)) (ripples s) (heightCurrent s),
       ripples := []\<rparr>"

text \<open>The value stored into \<open>heightNext[idx]\<close> for the cell \<open>(x, y)\<close>.\<close>

definition newHeight :: "RippleSimulation \<Rightarrow> nat \<Rightarrow> nat \<Rightarrow> real" where
  "newHeight s x y =
     (let res = resolution s;
          c2 = waveSpeed s * waveSpeed s;
          idx = y * res + x;
          current = heightCurrent s ! idx;
          previous = heightPrevious s ! idx;
          left = heightCurrent s ! (idx - 1);
          right = heightCurrent s ! (idx + 1);
          up = heightCurrent s ! (idx - res);
          down = heightCurrent s ! (idx + res);
          laplacian = left + right + up + down - 4 * current;
          h = 2 * current - previous + c2 * laplacian;
          h' = h * damping s;
          edgeFactor = getEdgeFactor s x y res
      in if edgeFactor < 1 then
           (let absorption = edgeFadeStrength s + (1 - edgeFadeStrength s) * edgeFactor
            in h' * absorption)
         else h')"

definition waveEquation :: "RippleSimulation \<Rightarrow> RippleSimulation" where
  "waveEquation s =
     (let res = resolution s
      in s\<lparr>heightNext :=
            fold (\<lambda>y. fold (\<lambda>x nxt. nxt[y * res + x := newHeight s x y]) [1..<res - 1])
              [1..<res - 1] (heightNext s)\<rparr>)"

definition swapBuffers :: "RippleSimulation \<Rightarrow> RippleSimulation" where
  "swapBuffers s =
     s\<lparr>heightPrevious := heightCurrent s,
       heightCurrent := heightNext s,
       heightNext := heightPrevious s\<rparr>"

text \<open>The texture refresh of the delegating variant: height, zero velocity, both normals.\<close>

definition texelWrite :: "RippleSimulation \<Rightarrow> nat \<Rightarrow> nat \<Rightarrow> real list \<Rightarrow> real list" where
  "texelWrite s y x data =
     (let res = resolution s;
          i = y * res + x;
          hL = (if x > 0 then heightCurrent s ! (i - 1) else heightCurrent s ! i);
          hR = (if x < res - 1 then heightCurrent s ! (i + 1) else heightCurrent s ! i);
          hU = (if y > 0 then heightCurrent s ! (i - res) else heightCurrent s ! i);
          hD = (if y < res - 1 then heightCurrent s ! (i + res) else heightCurrent s ! i);
          nx = (hL - hR) * 2;
          ny = (hU - hD) * 2
      in data[i * 4 := heightCurrent s ! i, i * 4 + 1 := 0, i * 4 + 2 := nx, i * 4 + 3 := ny])"

definition updateTexture :: "RippleSimulation \<Rightarrow> RippleSimulation" where
  "updateTexture s =
     (let res = resolution s
      in s\<lparr>heightTexture :=
            fold (\<lambda>y. fold (\<lambda>x. texelWrite s y x) [0..<res]) [0..<res] (heightTexture s)\<rparr>)"

definition update :: "RippleSimulation \<Rightarrow> RippleSimulation" where
  "update s =
     (case (useGPU s, gpuSimulation s) of
        (True, Some g) \<Rightarrow> s\<lparr>gpuSimulation := Some (gpu_update g)\<rparr>
      | _ \<Rightarrow> updateTexture (swapBuffers (waveEquation (injectRipples s))))"

text \<open>
  The texture refresh of the variant without delegation (\<open>src/water/RippleSimulation.js\<close>):
  height in R, the constants 0, 0 and 1 in the other channels. Everything before it is
  the same code as above.
\<close>

definition updateTexture_plain :: "RippleSimulation \<Rightarrow> RippleSimulation" where
  "updateTexture_plain s =
     (let res = resolution s
      in s\<lparr>heightTexture :=
            fold (\<lambda>i data. data[i * 4 := heightCurrent s ! i, i * 4 + 1 := 0,
                                 i * 4 + 2 := 0, i * 4 + 3 := 1])
              [0..<res * res] (heightTexture s)\<rparr>)"

definition update_plain :: "RippleSimulation \<Rightarrow> RippleSimulation" where
  "update_plain s = updateTexture_plain (swapBuffers (waveEquation (injectRipples s)))"

text \<open>Buffers of a simulation of resolution \<open>res\<close> have the sizes the constructor gives them.\<close>

definition wellFormed :: "RippleSimulation \<Rightarrow> bool" where
  "wellFormed s \<longleftrightarrow>
     length (heightCurrent s) = resolution s * resolution s \<and>
     length (heightPrevious s) = resolution s * resolution s \<and>
     length (heightNext s) = resolution s * resolution s \<and>
     length (heightTexture s) = resolution s * resolution s * 4"

section \<open>Caustics\<close>

text \<open>
  \<open>texture(heightMap, uv)\<close> samples the height texture at a normalised coordinate; the
  filtering and wrapping are those of the graphics hardware, so the sampler is a parameter
  \<open>heightMap\<close> of the model. The value of a uniform texture is the same under every sampler.
\<close>

definition clamp :: "real \<Rightarrow> real \<Rightarrow> real \<Rightarrow> real" where
  "clamp v lo hi = min (max v lo) hi"

text \<open>
  The texel that one invocation of the caustics kernel stores at \<open>(x, y)\<close>. The kernel also
  computes a refracted ray, its floor offsets and a value \<open>curvature\<close>; none of them
  reaches the stored texel, and only \<open>curvature\<close> is kept here.
\<close>

definition causticsTexel :: "nat \<Rightarrow> real \<Rightarrow> (real \<times> real \<Rightarrow> texel) \<Rightarrow> nat \<Rightarrow> texel" where
  "causticsTexel res intensity heightMap idx =
     (let x = idx mod res;
          y = idx div res;
          u = real x / real res;
          v = real y / real res;
          heightSample = heightMap (u, v);
          nx = tex_b heightSample;
          ny = tex_a heightSample;
          du = 1 / real res;
          dv = 1 / real res;
          h1 = tex_b (heightMap (u + du, v + 0));
          h2 = tex_b (heightMap (u + 0, v + dv));
          h3 = tex_b (heightMap (u - du, v - 0));
          h4 = tex_b (heightMap (u - 0, v - dv));
          curvature = \<bar>h1 + h2 + h3 + h4 - nx * 4\<bar> * 10;
          laplacian = h1 + h2 + h3 + h4 - tex_r heightSample * 4;
          focusFactor = laplacian * 50;
          causticValue = (0.3 + focusFactor) * intensity;
          finalIntensity = clamp causticValue 0 2;
          warmth = finalIntensity * 0.1
      in \<lparr>tex_r = finalIntensity + warmth, tex_g = finalIntensity,
          tex_b = finalIntensity - warmth * 0.5, tex_a = 1\<rparr>)"

text \<open>
  The dispatch \<open>compute(res * res)\<close> into the caustics storage texture, for a renderer
  that runs the kernel. The storage texture starts zero-filled.
\<close>

definition computeNode ::
  "nat \<Rightarrow> real \<Rightarrow> (real \<times> real \<Rightarrow> texel) \<Rightarrow> texel list \<Rightarrow> texel list" where
  "computeNode res intensity heightMap output =
     fold (\<lambda>idx out. textureStore out res (idx mod res) (idx div res)
                        (causticsTexel res intensity heightMap idx))
       [0..<res * res] output"

text \<open>
  The intensity the specification describes, for comparison: the curvature is the
  4-neighbour Laplacian of the height (channel R) at the cell, taken at the same four
  sample positions, and the result is \<open>(0.3 + curvature \<times> focusGain)\<close> scaled by the
  intensity multiplier and clamped to \<open>[0, 2]\<close>.
\<close>

definition specCausticIntensity ::
  "nat \<Rightarrow> real \<Rightarrow> real \<Rightarrow> (real \<times> real \<Rightarrow> texel) \<Rightarrow> nat \<Rightarrow> real" where
  "specCausticIntensity res intensity focusGain heightMap idx =
     (let u = real (idx mod res) / real res;
          v = real (idx div res) / real res;
          d = 1 / real res;
          curvature = tex_r (heightMap (u + d, v)) + tex_r (heightMap (u, v + d))
                    + tex_r (heightMap (u - d, v)) + tex_r (heightMap (u, v - d))
                    - 4 * tex_r (heightMap (u, v))
      in clamp ((0.3 + curvature * focusGain) * intensity) 0 2)"

section \<open>Iteration as folds: auxiliary lemmas\<close>

lemma fold_nested_product:
  "fold (\<lambda>y. fold (\<lambda>x. h y x) xs) ys a = fold (\<lambda>(y, x). h y x) (List.product ys xs) a"
proof (induction ys arbitrary: a)
  case Nil
  show ?case by simp
next
  case (Cons y ys)
  have "fold (\<lambda>(y, x). h y x) (map (Pair y) xs) b = fold (h y) xs b" for b
    by (simp add: fold_map comp_def)
  with Cons show ?case by simp
qed

lemma fold_preserves:
  assumes "\<And>k b. k \<in> set ks \<Longrightarrow> P b \<Longrightarrow> P (F k b)" and "P a"
  shows "P (fold F ks a)"
  using assms by (induction ks arbitrary: a) auto

lemma fold_nth_frame:
  assumes "\<And>k b. k \<in> set ks \<Longrightarrow> F k b ! i = b ! i"
  shows "fold F ks a ! i = a ! i"
  using assms by (induction ks arbitrary: a) auto

lemma fold_nth_written:
  assumes "k \<in> set ks"
    and "\<And>k' b. k' \<in> set ks \<Longrightarrow> k' \<noteq> k \<Longrightarrow> F k' b ! i = b ! i"
    and "\<And>b. P b \<Longrightarrow> F k b ! i = v"
    and "\<And>k' b. P b \<Longrightarrow> P (F k' b)"
    and "P a"
  shows "fold F ks a ! i = v"
  using assms
proof (induction ks arbitrary: a)
  case Nil
  then show ?case by simp
next
  case (Cons k0 ks)
  have Pa: "P (F k0 a)" using Cons.prems(4,5) by blast
  show ?case
  proof (cases "k \<in> set ks")
    case True
    have "fold F ks (F k0 a) ! i = v"
      using Cons.IH [OF True _ Cons.prems(3) Cons.prems(4) Pa] Cons.prems(2) by simp
    then show ?thesis by simp
  next
    case False
    with Cons.prems(1) have k0: "k0 = k" by simp
    have "fold F ks (F k0 a) ! i = F k0 a ! i"
      using False Cons.prems(2) by (intro fold_nth_frame) auto
    also have "\<dots> = v" using k0 Cons.prems(3,5) by simp
    finally show ?thesis by simp
  qed
qed

lemma fold_pointwise_upt:
  assumes F: "\<And>k b. k < n \<Longrightarrow> length b = n \<Longrightarrow> F k b = b[k := G k (b ! k)]"
    and len: "length a = n" and m: "m \<le> n"
  shows "fold F [0..<m] a = map (\<lambda>i. G i (a ! i)) [0..<m] @ drop m a"
  using m
proof (induction m)
  case 0
  show ?case by simp
next
  case (Suc m)
  let ?b = "map (\<lambda>i. G i (a ! i)) [0..<m] @ drop m a"
  from Suc have IH: "fold F [0..<m] a = ?b" and mn: "m < n" by simp_all
  have lb: "length ?b = n" using len mn by simp
  have bm: "?b ! m = a ! m" using len mn by (simp add: nth_append)
  have "fold F [0..<Suc m] a = F m ?b" by (simp add: IH)
  also have "\<dots> = ?b[m := G m (a ! m)]" using F [OF mn lb] bm by simp
  also have "\<dots> = map (\<lambda>i. G i (a ! i)) [0..<m] @ (drop m a)[0 := G m (a ! m)]"
    by (simp add: list_update_append)
  also have "(drop m a)[0 := G m (a ! m)] = G m (a ! m) # drop (Suc m) a"
    using len mn by (simp add: Cons_nth_drop_Suc [symmetric])
  finally show ?case by simp
qed

lemma fold_pointwise:
  assumes "\<And>k b. k < n \<Longrightarrow> length b = n \<Longrightarrow> F k b = b[k := G k (b ! k)]"
    and "length a = n"
  shows "fold F [0..<n] a = map (\<lambda>i. G i (a ! i)) [0..<n]"
  using fold_pointwise_upt [OF assms, of n] assms(2) by simp

lemma fold_accumulate_nth:
  fixes a :: "real list"
  assumes "i < length a"
  shows "fold (\<lambda>k b. if c k then b[f k := b ! f k + d k] else b) ks a ! i
       = a ! i + sum_list (map d (filter (\<lambda>k. c k \<and> f k = i) ks))"
  using assms
proof (induction ks arbitrary: a)
  case Nil
  show ?case by simp
next
  case (Cons k ks)
  let ?a' = "if c k then a[f k := a ! f k + d k] else a"
  have len: "i < length ?a'" using Cons.prems by simp
  have step: "?a' ! i = a ! i + (if c k \<and> f k = i then d k else 0)"
    using Cons.prems by (auto simp: nth_list_update)
  show ?case using Cons.IH [OF len] step by (simp del: length_list_update)
qed

lemma fold_accumulate_length:
  "length (fold (\<lambda>k b. if c k then b[f k := b ! f k + d k] else b) ks a) = length a"
  by (induction ks arbitrary: a) auto

section \<open>The CPU step, cell by cell\<close>

lemma cell_index_inj:
  fixes res :: nat
  assumes "x < res" "x' < res" "y * res + x = y' * res + x'"
  shows "x = x' \<and> y = y'"
proof -
  have "(y * res + x) mod res = x" "(y' * res + x') mod res = x'"
    using assms(1,2) by simp_all
  with assms(3) have x: "x = x'" by simp
  have "(y * res + x) div res = y" "(y' * res + x') div res = y'"
    using assms(1,2) by simp_all
  with assms(3) have "y = y'" by simp
  with x show ?thesis by simp
qed

lemma cell_index_less:
  fixes res :: nat
  assumes "x < res" "y < res"
  shows "y * res + x < res * res"
proof -
  have "y * res + x < y * res + res" using assms(1) by simp
  also have "\<dots> = Suc y * res" by simp
  also have "\<dots> \<le> res * res" using assms(2) by (metis Suc_leI mult_le_mono1)
  finally show ?thesis .
qed

lemma waveEquation_length:
  "length (heightNext (waveEquation s)) = length (heightNext s)"
  unfolding waveEquation_def Let_def
  by (simp add: fold_nested_product, rule fold_preserves) auto

lemma waveEquation_interior:
  assumes len: "length (heightNext s) = resolution s * resolution s"
    and x: "1 \<le> x" "x < resolution s - 1" and y: "1 \<le> y" "y < resolution s - 1"
  shows "heightNext (waveEquation s) ! (y * resolution s + x) = newHeight s x y"
proof -
  let ?res = "resolution s"
  let ?F = "\<lambda>(y, x) nxt. nxt[y * ?res + x := newHeight s x y]"
  let ?ks = "List.product [1..<?res - 1] [1..<?res - 1]"
  have mem: "(y, x) \<in> set ?ks" using x y by simp
  have lt: "y * ?res + x < ?res * ?res" using x y by (intro cell_index_less) auto
  have "fold ?F ?ks (heightNext s) ! (y * ?res + x) = newHeight s x y"
  proof (rule fold_nth_written [where P = "\<lambda>b. length b = ?res * ?res", OF mem])
    fix k' b assume a: "k' \<in> set ?ks" "k' \<noteq> (y, x)"
    obtain y' x' where kp: "k' = (y', x')" by (cases k')
    with a have k': "k' = (y', x')" "x' < ?res" "(y', x') \<noteq> (y, x)" by auto
    have xr: "x < ?res" using x by arith
    have "y' * ?res + x' \<noteq> y * ?res + x"
    proof
      assume "y' * ?res + x' = y * ?res + x"
      from cell_index_inj [OF k'(2) xr this] k'(3) show False by simp
    qed
    then show "?F k' b ! (y * ?res + x) = b ! (y * ?res + x)" using k' by simp
  next
    fix b :: "real list" assume "length b = ?res * ?res"
    then show "?F (y, x) b ! (y * ?res + x) = newHeight s x y" using lt by simp
  next
    fix k' and b :: "real list" assume "length b = ?res * ?res"
    then show "length (?F k' b) = ?res * ?res" by (cases k') simp
  qed (rule len)
  then show ?thesis
    unfolding waveEquation_def Let_def by (simp add: fold_nested_product)
qed

lemma waveEquation_boundary:
  assumes xy: "x < resolution s" "y < resolution s"
    and b: "x = 0 \<or> x = resolution s - 1 \<or> y = 0 \<or> y = resolution s - 1"
  shows "heightNext (waveEquation s) ! (y * resolution s + x) = heightNext s ! (y * resolution s + x)"
proof -
  let ?res = "resolution s"
  let ?F = "\<lambda>(y, x) nxt. nxt[y * ?res + x := newHeight s x y]"
  let ?ks = "List.product [1..<?res - 1] [1..<?res - 1]"
  have "fold ?F ?ks (heightNext s) ! (y * ?res + x) = heightNext s ! (y * ?res + x)"
  proof (rule fold_nth_frame)
    fix k b assume a: "k \<in> set ?ks"
    obtain y' x' where kp: "k = (y', x')" by (cases k)
    with a have k: "k = (y', x')" "1 \<le> x'" "x' < ?res - 1" "1 \<le> y'" "y' < ?res - 1"
      by auto
    have xr: "x' < ?res" using k by arith
    have "y' * ?res + x' \<noteq> y * ?res + x"
    proof
      assume "y' * ?res + x' = y * ?res + x"
      from cell_index_inj [OF xr xy(1) this] have "x' = x" "y' = y" by simp_all
      with k b show False by auto
    qed
    then show "?F k b ! (y * ?res + x) = b ! (y * ?res + x)" using k by simp
  qed
  then show ?thesis
    unfolding waveEquation_def Let_def by (simp add: fold_nested_product)
qed

lemma waveEquation_fields [simp]:
  "heightCurrent (waveEquation s) = heightCurrent s"
  "heightPrevious (waveEquation s) = heightPrevious s"
  "resolution (waveEquation s) = resolution s"
  "ripples (waveEquation s) = ripples s"
  "heightTexture (waveEquation s) = heightTexture s"
  by (simp_all add: waveEquation_def Let_def)

lemma injectRipples_fields [simp]:
  "heightPrevious (injectRipples s) = heightPrevious s"
  "heightNext (injectRipples s) = heightNext s"
  "resolution (injectRipples s) = resolution s"
  "ripples (injectRipples s) = []"
  "heightTexture (injectRipples s) = heightTexture s"
  "waveSpeed (injectRipples s) = waveSpeed s"
  "damping (injectRipples s) = damping s"
  "edgeFadeWidth (injectRipples s) = edgeFadeWidth s"
  "edgeFadeStrength (injectRipples s) = edgeFadeStrength s"
  by (simp_all add: injectRipples_def)

lemma updateTexture_fields [simp]:
  "heightCurrent (updateTexture s) = heightCurrent s"
  "heightPrevious (updateTexture s) = heightPrevious s"
  "heightNext (updateTexture s) = heightNext s"
  "resolution (updateTexture s) = resolution s"
  "ripples (updateTexture s) = ripples s"
  by (simp_all add: updateTexture_def Let_def)

lemma update_cpu:
  assumes "\<not> (useGPU s \<and> gpuSimulation s \<noteq> None)"
  shows "update s = updateTexture (swapBuffers (waveEquation (injectRipples s)))"
  using assms by (auto simp: update_def split: bool.splits option.splits)

lemma update_heightCurrent:
  assumes "\<not> (useGPU s \<and> gpuSimulation s \<noteq> None)"
  shows "heightCurrent (update s) = heightNext (waveEquation (injectRipples s))"
    and "heightPrevious (update s) = heightCurrent (injectRipples s)"
    and "heightNext (update s) = heightPrevious s"
  by (simp_all add: update_cpu [OF assms] swapBuffers_def)

lemma smoothstep_less_one:
  fixes t :: real
  assumes "0 \<le> t" "t < 1"
  shows "t * t * (3 - 2 * t) < 1"
proof -
  have "1 - t * t * (3 - 2 * t) = (1 - t) * (1 - t) * (1 + 2 * t)"
    by (simp add: algebra_simps)
  moreover have "0 < (1 - t) * (1 - t) * (1 + 2 * t)"
    using assms by (intro mult_pos_pos) auto
  ultimately show ?thesis by linarith
qed

lemma injectCell_length: "length (injectCell res st cx cy k h) = length h"
  by (cases k) (simp add: injectCell_def Let_def)

lemma injectRipple_length: "length (injectRipple res rp h) = length h"
proof -
  have "length (fold (\<lambda>(dy, dx). injectCell res (rip_strength rp) \<lfloor>rip_u rp * real res\<rfloor>
          \<lfloor>rip_v rp * real res\<rfloor> (dy, dx)) ks h) = length h" for ks
    by (rule fold_preserves [where P = "\<lambda>b. length b = length h"])
       (auto simp: injectCell_length)
  then show ?thesis
    unfolding injectRipple_def Let_def fold_nested_product .
qed

lemma injectRipples_length:
  "length (heightCurrent (injectRipples s)) = length (heightCurrent s)"
proof -
  have "length (fold (injectRipple (resolution s)) rs h) = length h" for rs h
    by (induction rs arbitrary: h) (simp_all add: injectRipple_length)
  then show ?thesis by (simp add: injectRipples_def)
qed

section \<open>Texel indices\<close>

lemma index_div_mod:
  fixes res :: nat
  assumes "k < res * res"
  shows "k mod res < res" "k div res < res" "k div res * res + k mod res = k"
proof -
  have pos: "0 < res" using assms by (cases res) auto
  then show "k mod res < res" by simp
  show "k div res < res" using assms pos by (simp add: less_mult_imp_div_less)
  show "k div res * res + k mod res = k" by simp
qed

lemma textureStore_index:
  assumes "k < res * res"
  shows "textureStore c res (k mod res) (k div res) v = c[k := v]"
  using index_div_mod [OF assms] by (simp add: textureStore_def)

section \<open>The texture refresh of the CPU path\<close>

lemma texelWrite_length: "length (texelWrite s y x data) = length data"
  by (simp add: texelWrite_def Let_def)

lemma texelWrite_other:
  assumes "y' * resolution s + x' \<noteq> i" and "c < 4"
  shows "texelWrite s y' x' b ! (i * 4 + c) = b ! (i * 4 + c)"
proof -
  let ?j = "y' * resolution s + x'"
  have "?j * 4 \<noteq> i * 4 + c" "?j * 4 + 1 \<noteq> i * 4 + c" "?j * 4 + 2 \<noteq> i * 4 + c"
       "?j * 4 + 3 \<noteq> i * 4 + c"
    using assms by presburger+
  then show ?thesis by (simp add: texelWrite_def Let_def)
qed

lemma quad_update_nth:
  assumes "j + 3 < length b" and "c < 4"
  shows "b[j := a0, j + 1 := a1, j + 2 := a2, j + 3 := a3] ! (j + c) = [a0, a1, a2, a3] ! c"
proof -
  from assms(2) consider "c = 0" | "c = 1" | "c = 2" | "c = 3" by linarith
  then show ?thesis using assms(1) by cases (simp_all add: eval_nat_numeral)
qed

lemma texelWrite_own:
  assumes "(y * resolution s + x) * 4 + 3 < length b" and "c < 4"
  shows "texelWrite s y x b ! ((y * resolution s + x) * 4 + c) =
     (let res = resolution s;
          i = y * res + x;
          hL = (if x > 0 then heightCurrent s ! (i - 1) else heightCurrent s ! i);
          hR = (if x < res - 1 then heightCurrent s ! (i + 1) else heightCurrent s ! i);
          hU = (if y > 0 then heightCurrent s ! (i - res) else heightCurrent s ! i);
          hD = (if y < res - 1 then heightCurrent s ! (i + res) else heightCurrent s ! i)
      in [heightCurrent s ! i, 0, (hL - hR) * 2, (hU - hD) * 2] ! c)"
  unfolding texelWrite_def Let_def by (rule quad_update_nth [OF assms])

lemma updateTexture_nth_gen:
  assumes len: "length (heightTexture s) = resolution s * resolution s * 4"
    and x: "x < resolution s" and y: "y < resolution s" and c: "c < 4"
  shows "heightTexture (updateTexture s) ! ((y * resolution s + x) * 4 + c) =
         texelWrite s y x (replicate (resolution s * resolution s * 4) 0) ! ((y * resolution s + x) * 4 + c)"
proof -
  let ?res = "resolution s"
  let ?i = "y * ?res + x"
  let ?F = "\<lambda>(y, x). texelWrite s y x"
  let ?ks = "List.product [0..<?res] [0..<?res]"
  have mem: "(y, x) \<in> set ?ks" using x y by simp
  have lt: "?i < ?res * ?res" using x y by (rule cell_index_less)
  have wr: "texelWrite s y x b ! (?i * 4 + c) =
            texelWrite s y x (replicate (?res * ?res * 4) 0) ! (?i * 4 + c)"
    if "length b = ?res * ?res * 4" for b
  proof -
    have "?i * 4 + 3 < length b" "?i * 4 + 3 < length (replicate (?res * ?res * 4) (0::real))"
      using lt that by simp_all
    then show ?thesis using c by (simp only: texelWrite_own)
  qed
  have "fold ?F ?ks (heightTexture s) ! (?i * 4 + c) =
        texelWrite s y x (replicate (?res * ?res * 4) 0) ! (?i * 4 + c)"
  proof (rule fold_nth_written [where P = "\<lambda>b. length b = ?res * ?res * 4", OF mem])
    fix k' b assume a: "k' \<in> set ?ks" "k' \<noteq> (y, x)"
    obtain y' x' where kp: "k' = (y', x')" by (cases k')
    with a have k': "x' < ?res" "(y', x') \<noteq> (y, x)" by auto
    have "y' * ?res + x' \<noteq> ?i"
    proof
      assume "y' * ?res + x' = ?i"
      from cell_index_inj [OF k'(1) x this] k'(2) show False by simp
    qed
    then show "?F k' b ! (?i * 4 + c) = b ! (?i * 4 + c)"
      unfolding kp prod.case using c by (rule texelWrite_other)
  next
    fix b :: "real list" assume "length b = ?res * ?res * 4"
    then show "?F (y, x) b ! (?i * 4 + c) =
       texelWrite s y x (replicate (?res * ?res * 4) 0) ! (?i * 4 + c)"
      unfolding prod.case by (rule wr)
  next
    fix k' and b :: "real list" assume "length b = ?res * ?res * 4"
    then show "length (?F k' b) = ?res * ?res * 4" by (cases k') (simp add: texelWrite_length)
  qed (rule len)
  then show ?thesis
    unfolding updateTexture_def Let_def by (simp add: fold_nested_product)
qed

lemma updateTexture_nth:
  assumes len: "length (heightTexture s) = resolution s * resolution s * 4"
    and x: "x < resolution s" and y: "y < resolution s" and c: "c < 4"
  shows "heightTexture (updateTexture s) ! ((y * resolution s + x) * 4 + c) =
     (let res = resolution s;
          i = y * res + x;
          hL = (if x > 0 then heightCurrent s ! (i - 1) else heightCurrent s ! i);
          hR = (if x < res - 1 then heightCurrent s ! (i + 1) else heightCurrent s ! i);
          hU = (if y > 0 then heightCurrent s ! (i - res) else heightCurrent s ! i);
          hD = (if y < res - 1 then heightCurrent s ! (i + res) else heightCurrent s ! i)
      in [heightCurrent s ! i, 0, (hL - hR) * 2, (hU - hD) * 2] ! c)"
proof -
  have "(y * resolution s + x) * 4 + 3 < length (replicate (resolution s * resolution s * 4) (0::real))"
    using cell_index_less [OF x y] by simp
  then show ?thesis
    unfolding updateTexture_nth_gen [OF len x y c] using c by (rule texelWrite_own)
qed

lemma updateTexture_plain_nth:
  assumes len: "length (heightTexture s) = resolution s * resolution s * 4"
    and i: "i < resolution s * resolution s" and c: "c < 4"
  shows "heightTexture (updateTexture_plain s) ! (i * 4 + c) = [heightCurrent s ! i, 0, 0, 1] ! c"
proof -
  let ?n = "resolution s * resolution s"
  let ?F = "\<lambda>i data. data[i * 4 := heightCurrent s ! i, i * 4 + 1 := 0, i * 4 + 2 := 0, i * 4 + 3 := 1]"
  have mem: "i \<in> set [0..<?n]" using i by simp
  have "fold ?F [0..<?n] (heightTexture s) ! (i * 4 + c) = [heightCurrent s ! i, 0, 0, 1] ! c"
  proof (rule fold_nth_written [where P = "\<lambda>b. length b = ?n * 4", OF mem])
    fix k' and b :: "real list" assume a: "k' \<in> set [0..<?n]" "k' \<noteq> i"
    have "k' * 4 \<noteq> i * 4 + c" "k' * 4 + 1 \<noteq> i * 4 + c" "k' * 4 + 2 \<noteq> i * 4 + c"
         "k' * 4 + 3 \<noteq> i * 4 + c"
      using a(2) c by presburger+
    then show "?F k' b ! (i * 4 + c) = b ! (i * 4 + c)" by simp
  next
    fix b :: "real list" assume "length b = ?n * 4"
    then have "i * 4 + 3 < length b" using i by simp
    then show "?F i b ! (i * 4 + c) = [heightCurrent s ! i, 0, 0, 1] ! c"
      using c by (rule quad_update_nth)
  next
    fix k' and b :: "real list" assume "length b = ?n * 4"
    then show "length (?F k' b) = ?n * 4" by simp
  qed (rule len)
  then show ?thesis
    unfolding updateTexture_plain_def Let_def by simp
qed

lemma swapBuffers_fields [simp]:
  "heightCurrent (swapBuffers s) = heightNext s"
  "heightPrevious (swapBuffers s) = heightCurrent s"
  "heightNext (swapBuffers s) = heightPrevious s"
  "resolution (swapBuffers s) = resolution s"
  "heightTexture (swapBuffers s) = heightTexture s"
  by (simp_all add: swapBuffers_def)

lemma update_heightTexture:
  assumes cpu: "\<not> (useGPU s \<and> gpuSimulation s \<noteq> None)"
  shows "heightTexture (update s) =
         heightTexture (updateTexture (swapBuffers (waveEquation (injectRipples s))))"
    and "resolution (update s) = resolution s"
  by (simp_all add: update_cpu [OF cpu])

lemma sqrt_9: "sqrt 9 = 3"
  using real_sqrt_abs [of 3] by simp

lemma sqrt_le_3_iff: "sqrt x \<le> 3 \<longleftrightarrow> x \<le> 9"
  using real_sqrt_le_iff [of x 9] by (simp only: sqrt_9)

section \<open>Impact injection of the CPU path, cell by cell\<close>

lemma injectRipple_fold:
  "injectRipple res rp h =
     fold (\<lambda>k b.
        if 0 \<le> \<lfloor>rip_u rp * real res\<rfloor> + snd k \<and> \<lfloor>rip_u rp * real res\<rfloor> + snd k < int res \<and>
           0 \<le> \<lfloor>rip_v rp * real res\<rfloor> + fst k \<and> \<lfloor>rip_v rp * real res\<rfloor> + fst k < int res \<and>
           sqrt (real_of_int (snd k * snd k + fst k * fst k)) \<le> 3
        then b[nat ((\<lfloor>rip_v rp * real res\<rfloor> + fst k) * int res + (\<lfloor>rip_u rp * real res\<rfloor> + snd k)) :=
               b ! nat ((\<lfloor>rip_v rp * real res\<rfloor> + fst k) * int res + (\<lfloor>rip_u rp * real res\<rfloor> + snd k))
               + rip_strength rp * (1 - sqrt (real_of_int (snd k * snd k + fst k * fst k)) / 3)
                                 * (1 - sqrt (real_of_int (snd k * snd k + fst k * fst k)) / 3)]
        else b)
       (List.product [-3..3] [-3..3]) h"
proof -
  have eq: "(\<lambda>(dy, dx). injectCell res (rip_strength rp) \<lfloor>rip_u rp * real res\<rfloor> \<lfloor>rip_v rp * real res\<rfloor> (dy, dx))
      = (\<lambda>k b.
        if 0 \<le> \<lfloor>rip_u rp * real res\<rfloor> + snd k \<and> \<lfloor>rip_u rp * real res\<rfloor> + snd k < int res \<and>
           0 \<le> \<lfloor>rip_v rp * real res\<rfloor> + fst k \<and> \<lfloor>rip_v rp * real res\<rfloor> + fst k < int res \<and>
           sqrt (real_of_int (snd k * snd k + fst k * fst k)) \<le> 3
        then b[nat ((\<lfloor>rip_v rp * real res\<rfloor> + fst k) * int res + (\<lfloor>rip_u rp * real res\<rfloor> + snd k)) :=
               b ! nat ((\<lfloor>rip_v rp * real res\<rfloor> + fst k) * int res + (\<lfloor>rip_u rp * real res\<rfloor> + snd k))
               + rip_strength rp * (1 - sqrt (real_of_int (snd k * snd k + fst k * fst k)) / 3)
                                 * (1 - sqrt (real_of_int (snd k * snd k + fst k * fst k)) / 3)]
        else b)"
    by (rule ext, rule ext) (auto simp: injectCell_def Let_def split: prod.splits)
  show ?thesis
    unfolding injectRipple_def Let_def fold_nested_product eq ..
qed

lemma cell_index_int:
  fixes res x y :: nat and px py :: int
  assumes "0 \<le> px" "px < int res" "0 \<le> py" "x < res"
  shows "nat (py * int res + px) = y * res + x \<longleftrightarrow> px = int x \<and> py = int y"
proof -
  have e: "nat (py * int res + px) = nat py * res + nat px"
    using assms by (simp add: nat_add_distrib nat_mult_distrib)
  have "nat px < res" using assms by simp
  then have "nat py * res + nat px = y * res + x \<longleftrightarrow> nat px = x \<and> nat py = y"
    using cell_index_inj [of "nat px" res x "nat py" y] assms(4) by auto
  then show ?thesis unfolding e using assms by auto
qed

lemma injectRipple_nth:
  assumes len: "length h = res * res" and x: "x < res" and y: "y < res"
  shows "injectRipple res rp h ! (y * res + x) = h ! (y * res + x) +
     (let dx = int x - \<lfloor>rip_u rp * real res\<rfloor>;
          dy = int y - \<lfloor>rip_v rp * real res\<rfloor>;
          dist = sqrt (real_of_int (dx * dx + dy * dy))
      in if - 3 \<le> dx \<and> dx \<le> 3 \<and> - 3 \<le> dy \<and> dy \<le> 3 \<and> dist \<le> 3
         then rip_strength rp * (1 - dist / 3) * (1 - dist / 3) else 0)"
proof -
  define cx cy where "cx = \<lfloor>rip_u rp * real res\<rfloor>" and "cy = \<lfloor>rip_v rp * real res\<rfloor>"
  define dst where "dst k = sqrt (real_of_int (snd k * snd k + fst k * fst k))" for k :: "int \<times> int"
  define c where "c k \<longleftrightarrow> 0 \<le> cx + snd k \<and> cx + snd k < int res \<and>
           0 \<le> cy + fst k \<and> cy + fst k < int res \<and> dst k \<le> 3" for k
  define f where "f k = nat ((cy + fst k) * int res + (cx + snd k))" for k
  define d where "d k = rip_strength rp * (1 - dst k / 3) * (1 - dst k / 3)" for k
  define ks where "ks = List.product [-3..3] [-3..3::int]"
  define k0 where "k0 = (int y - cy, int x - cx)"
  let ?i = "y * res + x"
  have i: "?i < length h" using cell_index_less [OF x y] len by simp
  have fold_eq: "injectRipple res rp h = fold (\<lambda>k b. if c k then b[f k := b ! f k + d k] else b) ks h"
    unfolding injectRipple_fold c_def f_def d_def dst_def ks_def cx_def cy_def ..
  have dist: "distinct ks" unfolding ks_def by (intro distinct_product distinct_upto)
  have setks: "k \<in> set ks \<longleftrightarrow> - 3 \<le> fst k \<and> fst k \<le> 3 \<and> - 3 \<le> snd k \<and> snd k \<le> 3" for k
    unfolding ks_def
    by (cases k) (simp only: set_product set_upto mem_Sigma_iff atLeastAtMost_iff fst_conv snd_conv, blast)
  have sel: "c k \<and> f k = ?i \<longleftrightarrow> k = k0 \<and> dst k0 \<le> 3" for k
  proof (cases "0 \<le> cx + snd k \<and> cx + snd k < int res \<and> 0 \<le> cy + fst k")
    case True
    then have "f k = ?i \<longleftrightarrow> cx + snd k = int x \<and> cy + fst k = int y"
      unfolding f_def using cell_index_int [of "cx + snd k" res "cy + fst k" x y] x by simp
    also have "\<dots> \<longleftrightarrow> k = k0" unfolding k0_def by (cases k) auto
    finally have fk: "f k = ?i \<longleftrightarrow> k = k0" .
    show ?thesis
    proof (cases "k = k0")
      case True
      then show ?thesis using fk x y unfolding c_def k0_def by auto
    next
      case False
      then show ?thesis using fk by simp
    qed
  next
    case False
    then have nc: "\<not> c k" unfolding c_def by auto
    have "k \<noteq> k0" using False x y unfolding k0_def by auto
    with nc show ?thesis by simp
  qed
  have "sum_list (map d (filter (\<lambda>k. c k \<and> f k = ?i) ks))
        = sum d {k \<in> set ks. c k \<and> f k = ?i}"
    using dist by (subst sum_list_distinct_conv_sum_set) simp_all
  also have "{k \<in> set ks. c k \<and> f k = ?i} = (if k0 \<in> set ks \<and> dst k0 \<le> 3 then {k0} else {})"
    using sel by auto
  also have "sum d \<dots> = (if k0 \<in> set ks \<and> dst k0 \<le> 3 then d k0 else 0)" by simp
  finally have s: "sum_list (map d (filter (\<lambda>k. c k \<and> f k = ?i) ks))
        = (if k0 \<in> set ks \<and> dst k0 \<le> 3 then d k0 else 0)" .
  have "injectRipple res rp h ! ?i = h ! ?i + (if k0 \<in> set ks \<and> dst k0 \<le> 3 then d k0 else 0)"
    unfolding fold_eq fold_accumulate_nth [OF i] s ..
  also have "(if k0 \<in> set ks \<and> dst k0 \<le> 3 then d k0 else 0) =
     (let dx = int x - cx; dy = int y - cy; dist = sqrt (real_of_int (dx * dx + dy * dy))
      in if - 3 \<le> dx \<and> dx \<le> 3 \<and> - 3 \<le> dy \<and> dy \<le> 3 \<and> dist \<le> 3
         then rip_strength rp * (1 - dist / 3) * (1 - dist / 3) else 0)"
    unfolding setks d_def dst_def k0_def Let_def by auto
  finally show ?thesis unfolding cx_def cy_def .
qed

lemma update_interior:
  assumes wf: "wellFormed s" and cpu: "\<not> (useGPU s \<and> gpuSimulation s \<noteq> None)"
    and x: "1 \<le> x" "x < resolution s - 1" and y: "1 \<le> y" "y < resolution s - 1"
  shows "heightCurrent (update s) ! (y * resolution s + x) = newHeight (injectRipples s) x y"
proof -
  have len: "length (heightNext (injectRipples s)) = resolution (injectRipples s) * resolution (injectRipples s)"
    using wf by (simp add: wellFormed_def)
  show ?thesis
    using waveEquation_interior [OF len] x y by (simp add: update_heightCurrent [OF cpu])
qed

lemma sqrt_2_bounds: "0 \<le> sqrt 2" "sqrt 2 \<le> 3"
  by (simp_all add: sqrt_le_3_iff)

lemma falloff_sqrt_2: "0 \<le> (1 - sqrt 2 / 3) * (1 - sqrt 2 / 3)" "(1 - sqrt 2 / 3) * (1 - sqrt 2 / 3) \<le> 1"
proof -
  have a: "0 \<le> 1 - sqrt 2 / 3" "1 - sqrt 2 / 3 \<le> 1" using sqrt_2_bounds by simp_all
  then show "0 \<le> (1 - sqrt 2 / 3) * (1 - sqrt 2 / 3)" by simp
  show "(1 - sqrt 2 / 3) * (1 - sqrt 2 / 3) \<le> 1"
    using mult_mono [OF a(2) a(2) _ a(1)] by simp
qed

section \<open>One impact at the centre of a 16 by 16 grid, CPU path\<close>

lemma cpu_single_impact:
  "heightCurrent (update (addRipple ((RippleSimulation_new 16)\<lparr>damping := 0.99, edgeFadeWidth := 0\<rparr>) 0 0 1)) ! 136 = 1782 / 1000 \<and>
   heightCurrent (update (addRipple ((RippleSimulation_new 16)\<lparr>damping := 0.99, edgeFadeWidth := 0\<rparr>) 0 0 1)) ! 135 = (8 / 9 + 0.09 * (2 * ((1 - sqrt 2 / 3) * (1 - sqrt 2 / 3)) - 6 / 9)) * 0.99 \<and>
   heightCurrent (update (addRipple ((RippleSimulation_new 16)\<lparr>damping := 0.99, edgeFadeWidth := 0\<rparr>) 0 0 1)) ! 137 = (8 / 9 + 0.09 * (2 * ((1 - sqrt 2 / 3) * (1 - sqrt 2 / 3)) - 6 / 9)) * 0.99 \<and>
   heightCurrent (update (addRipple ((RippleSimulation_new 16)\<lparr>damping := 0.99, edgeFadeWidth := 0\<rparr>) 0 0 1)) ! 120 = (8 / 9 + 0.09 * (2 * ((1 - sqrt 2 / 3) * (1 - sqrt 2 / 3)) - 6 / 9)) * 0.99 \<and>
   heightCurrent (update (addRipple ((RippleSimulation_new 16)\<lparr>damping := 0.99, edgeFadeWidth := 0\<rparr>) 0 0 1)) ! 152 = (8 / 9 + 0.09 * (2 * ((1 - sqrt 2 / 3) * (1 - sqrt 2 / 3)) - 6 / 9)) * 0.99"
proof -
  define q :: real where "q = (1 - sqrt 2 / 3) * (1 - sqrt 2 / 3)"
  \<comment> \<open>CPU path\<close>
  let ?s0 = "(RippleSimulation_new 16)\<lparr>damping := 0.99, edgeFadeWidth := 0\<rparr>"
  let ?rp = "\<lparr>rip_u = 1 / 2, rip_v = 1 / 2, rip_strength = 1\<rparr>"
  define s1 where "s1 = addRipple ?s0 0 0 1"
  let ?cur = "heightCurrent (injectRipples s1)"
  let ?H = "heightCurrent (update s1)"
  have s1: "s1 = ?s0\<lparr>ripples := [?rp]\<rparr>"
    unfolding s1_def by (simp add: addRipple_def RippleSimulation_new_def Let_def)
  have wf: "wellFormed s1"
    unfolding s1 by (simp add: wellFormed_def RippleSimulation_new_def)
  have cpu: "\<not> (useGPU s1 \<and> gpuSimulation s1 \<noteq> None)"
    unfolding s1 by (simp add: RippleSimulation_new_def)
  have cfg: "resolution s1 = 16" "waveSpeed s1 = 0.3" "damping s1 = 0.99" "edgeFadeWidth s1 = 0"
    unfolding s1 by (simp_all add: RippleSimulation_new_def)
  have prev: "heightPrevious s1 = replicate 256 0"
    unfolding s1 by (simp add: RippleSimulation_new_def)
  have cur: "?cur = injectRipple 16 ?rp (replicate (16 * 16) 0)"
    unfolding s1 by (simp add: injectRipples_def RippleSimulation_new_def)
  have cell: "?cur ! (y * 16 + x) =
     (let dx = int x - 8; dy = int y - 8; dist = sqrt (real_of_int (dx * dx + dy * dy))
      in if - 3 \<le> dx \<and> dx \<le> 3 \<and> - 3 \<le> dy \<and> dy \<le> 3 \<and> dist \<le> 3
         then (1 - dist / 3) * (1 - dist / 3) else 0)" if "x < 16" "y < 16" for x y
  proof -
    have "y * 16 + x < 16 * 16" using that by simp
    then show ?thesis
      unfolding cur using injectRipple_nth [of "replicate (16 * 16) 0" 16 x y ?rp] that
      by (simp add: Let_def)
  qed
  have c: "?cur ! 136 = 1"
    "?cur ! 135 = 4 / 9" "?cur ! 137 = 4 / 9" "?cur ! 120 = 4 / 9" "?cur ! 152 = 4 / 9"
    "?cur ! 134 = 1 / 9" "?cur ! 138 = 1 / 9" "?cur ! 104 = 1 / 9" "?cur ! 168 = 1 / 9"
    using cell [of 8 8] cell [of 7 8] cell [of 9 8] cell [of 8 7] cell [of 8 9]
      cell [of 6 8] cell [of 10 8] cell [of 8 6] cell [of 8 10]
    by (simp_all add: Let_def)
  have d: "?cur ! 119 = q" "?cur ! 121 = q" "?cur ! 151 = q" "?cur ! 153 = q"
    using cell [of 7 7] cell [of 9 7] cell [of 7 9] cell [of 9 9]
    unfolding q_def by (simp_all add: sqrt_le_3_iff Let_def)
  have ef: "getEdgeFactor (injectRipples s1) x y 16 = 1" if "x < 16" "y < 16" for x y
  proof -
    have "0 \<le> min (min (min (int x) (int 16 - 1 - int x)) (int y)) (int 16 - 1 - int y)"
      using that by simp
    then show ?thesis
      unfolding getEdgeFactor_def Let_def using cfg(4) by simp
  qed
  have nh: "?H ! (y * 16 + x) =
      (2 * ?cur ! (y * 16 + x)
       + 0.09 * (?cur ! (y * 16 + x - 1) + ?cur ! (y * 16 + x + 1) + ?cur ! (y * 16 + x - 16)
                 + ?cur ! (y * 16 + x + 16) - 4 * ?cur ! (y * 16 + x))) * 0.99"
    if "1 \<le> x" "x < 15" "1 \<le> y" "y < 15" for x y
  proof -
    have "?H ! (y * 16 + x) = newHeight (injectRipples s1) x y"
      using update_interior [OF wf cpu, of x y] that unfolding cfg by simp
    moreover have "x < 16" "y < 16" "y * 16 + x < 256" using that by simp_all
    ultimately show ?thesis
      unfolding newHeight_def Let_def by (simp add: cfg prev ef)
  qed
  have h136: "?H ! 136 = 1782 / 1000"
    using nh [of 8 8] by (simp add: c)
  have h135: "?H ! 135 = (8 / 9 + 0.09 * (2 * q - 6 / 9)) * 0.99"
    using nh [of 7 8] by (simp add: c d)
  have h137: "?H ! 137 = (8 / 9 + 0.09 * (2 * q - 6 / 9)) * 0.99"
    using nh [of 9 8] by (simp add: c d)
  have h120: "?H ! 120 = (8 / 9 + 0.09 * (2 * q - 6 / 9)) * 0.99"
    using nh [of 8 7] by (simp add: c d)
  have h152: "?H ! 152 = (8 / 9 + 0.09 * (2 * q - 6 / 9)) * 0.99"
    using nh [of 8 9] by (simp add: c d)
  show ?thesis
    unfolding s1_def [symmetric] q_def [symmetric]
    using h136 h135 h137 h120 h152 by (intro conjI)
qed

section \<open>Damping and edge absorption never amplify\<close>

lemma smoothstep_nonneg:
  fixes t :: real
  assumes "0 \<le> t" "t \<le> 1"
  shows "0 \<le> t * t * (3 - 2 * t)"
  using assms by (intro mult_nonneg_nonneg) auto

lemma getEdgeFactor_range:
  assumes x: "1 \<le> x" "x < res - 1" and y: "1 \<le> y" "y < res - 1"
  shows "0 \<le> getEdgeFactor s x y res \<and> getEdgeFactor s x y res \<le> 1"
proof -
  define d where "d = real_of_int (min (min (min (int x) (int res - 1 - int x)) (int y)) (int res - 1 - int y))"
  have "1 \<le> min (min (min (int x) (int res - 1 - int x)) (int y)) (int res - 1 - int y)"
    using x y by (simp only: min.bounded_iff) linarith
  then have dpos: "1 \<le> d" unfolding d_def by linarith
  have gef: "getEdgeFactor s x y res =
      (if d \<ge> edgeFadeWidth s then 1
       else (d / edgeFadeWidth s) * (d / edgeFadeWidth s) * (3 - 2 * (d / edgeFadeWidth s)))"
    unfolding getEdgeFactor_def Let_def d_def by simp
  show ?thesis
  proof (cases "d \<ge> edgeFadeWidth s")
    case True
    then show ?thesis unfolding gef by simp
  next
    case False
    let ?t = "d / edgeFadeWidth s"
    have t: "0 \<le> ?t" "?t < 1" using False dpos by auto
    have "0 \<le> ?t * ?t * (3 - 2 * ?t)" using t by (intro smoothstep_nonneg) auto
    moreover have "?t * ?t * (3 - 2 * ?t) < 1" using t by (rule smoothstep_less_one)
    ultimately show ?thesis unfolding gef using False by simp
  qed
qed

lemma newHeight_damped:
  assumes x: "1 \<le> x" "x < resolution s - 1" and y: "1 \<le> y" "y < resolution s - 1"
    and e: "0 \<le> edgeFadeStrength s" "edgeFadeStrength s \<le> 1"
  shows "(newHeight s x y)\<^sup>2 \<le> (damping s)\<^sup>2 *
     (2 * heightCurrent s ! (y * resolution s + x) - heightPrevious s ! (y * resolution s + x)
      + (waveSpeed s)\<^sup>2 *
        (heightCurrent s ! (y * resolution s + x - 1) + heightCurrent s ! (y * resolution s + x + 1)
         + heightCurrent s ! (y * resolution s + x - resolution s)
         + heightCurrent s ! (y * resolution s + x + resolution s)
         - 4 * heightCurrent s ! (y * resolution s + x)))\<^sup>2"
proof -
  define L where "L = 2 * heightCurrent s ! (y * resolution s + x) - heightPrevious s ! (y * resolution s + x)
      + (waveSpeed s)\<^sup>2 *
        (heightCurrent s ! (y * resolution s + x - 1) + heightCurrent s ! (y * resolution s + x + 1)
         + heightCurrent s ! (y * resolution s + x - resolution s)
         + heightCurrent s ! (y * resolution s + x + resolution s)
         - 4 * heightCurrent s ! (y * resolution s + x))"
  define ef where "ef = getEdgeFactor s x y (resolution s)"
  define A where "A = (if ef < 1 then edgeFadeStrength s + (1 - edgeFadeStrength s) * ef else 1)"
  have efr: "0 \<le> ef" "ef \<le> 1" unfolding ef_def using getEdgeFactor_range [OF x y] by simp_all
  have "0 \<le> (1 - edgeFadeStrength s) * ef"
    using efr e by simp
  moreover have "(1 - edgeFadeStrength s) * ef \<le> (1 - edgeFadeStrength s) * 1"
    using efr e by (intro mult_left_mono) simp_all
  ultimately have A: "0 \<le> A" "A \<le> 1" unfolding A_def using e by auto
  have nh: "newHeight s x y = L * damping s * A"
    unfolding newHeight_def Let_def L_def A_def ef_def by (simp add: power2_eq_square)
  have "A\<^sup>2 \<le> 1" using A by (simp add: power_le_one)
  then have "(damping s)\<^sup>2 * L\<^sup>2 * A\<^sup>2 \<le> (damping s)\<^sup>2 * L\<^sup>2 * 1"
    by (intro mult_left_mono) auto
  then show ?thesis unfolding nh L_def [symmetric] by (simp add: power_mult_distrib mult_ac)
qed

lemma injectRipples_empty:
  assumes "ripples s = []"
  shows "injectRipples s = s"
  using assms by (simp add: injectRipples_def)

lemma update_config:
  assumes cpu: "\<not> (useGPU s \<and> gpuSimulation s \<noteq> None)"
  shows "resolution (update s) = resolution s" "waveSpeed (update s) = waveSpeed s"
    "damping (update s) = damping s" "edgeFadeWidth (update s) = edgeFadeWidth s"
    "edgeFadeStrength (update s) = edgeFadeStrength s" "useGPU (update s) = useGPU s"
    "gpuSimulation (update s) = gpuSimulation s" "ripples (update s) = []"
  unfolding update_cpu [OF cpu]
  by (simp_all add: updateTexture_def swapBuffers_def waveEquation_def injectRipples_def Let_def)

lemma waveEquation_res3:
  assumes "resolution s = 3"
  shows "heightNext (waveEquation s) = (heightNext s)[4 := newHeight s 1 1]"
  unfolding waveEquation_def Let_def assms by (simp add: numeral_2_eq_2)

lemma sum_squares_single:
  "(\<Sum>h\<leftarrow>(replicate 9 (0::real))[4 := c]. h\<^sup>2) = c\<^sup>2"
  by (simp add: numeral_eq_Suc)

section \<open>The caustics dispatch, texel by texel\<close>

lemma computeNode_nth:
  assumes len: "length output = res * res" and k: "k < res * res"
  shows "computeNode res intensity heightMap output ! k = causticsTexel res intensity heightMap k"
proof -
  have "computeNode res intensity heightMap output =
        map (\<lambda>k. causticsTexel res intensity heightMap k) [0..<res * res]"
    unfolding computeNode_def
    by (rule fold_pointwise [where G = "\<lambda>k _. causticsTexel res intensity heightMap k"])
       (simp_all only: textureStore_index len)
  then show ?thesis using k by simp
qed

section \<open>The all-zero field in the CPU path\<close>


lemma newHeight_zero:
  assumes cur: "heightCurrent s = replicate (resolution s * resolution s) 0"
    and prev: "heightPrevious s = replicate (resolution s * resolution s) 0"
    and x: "1 \<le> x" "x < resolution s - 1" and y: "1 \<le> y" "y < resolution s - 1"
  shows "newHeight s x y = 0"
proof -
  let ?res = "resolution s"
  have i: "y * ?res + x < ?res * ?res" using x y by (intro cell_index_less) arith+
  have l: "y * ?res + x - 1 < ?res * ?res" using i by arith
  have "y * ?res + (x + 1) < ?res * ?res" using x y by (intro cell_index_less) arith+
  then have r: "y * ?res + x + 1 < ?res * ?res" by simp
  have u: "y * ?res + x - ?res < ?res * ?res" using i by arith
  have "(y + 1) * ?res + x < ?res * ?res" using x y by (intro cell_index_less) arith+
  then have d: "y * ?res + x + ?res < ?res * ?res" by simp
  show ?thesis
    unfolding newHeight_def Let_def cur prev
    by (simp only: nth_replicate i l r u d) simp
qed

lemma waveEquation_zero:
  assumes cur: "heightCurrent s = replicate (resolution s * resolution s) 0"
    and prev: "heightPrevious s = replicate (resolution s * resolution s) 0"
    and nxt: "heightNext s = replicate (resolution s * resolution s) 0"
  shows "heightNext (waveEquation s) = replicate (resolution s * resolution s) 0"
proof (rule nth_equalityI)
  show "length (heightNext (waveEquation s)) = length (replicate (resolution s * resolution s) (0::real))"
    by (simp add: waveEquation_length nxt)
next
  let ?res = "resolution s"
  fix i assume "i < length (heightNext (waveEquation s))"
  then have i: "i < ?res * ?res" by (simp add: waveEquation_length nxt)
  note dm = index_div_mod [OF i]
  define x y where "x = i mod ?res" and "y = i div ?res"
  have xy: "x < ?res" "y < ?res" "y * ?res + x = i" unfolding x_def y_def using dm by simp_all
  have len: "length (heightNext s) = ?res * ?res" by (simp add: nxt)
  have "heightNext (waveEquation s) ! (y * ?res + x) = 0"
  proof (cases "x = 0 \<or> x = ?res - 1 \<or> y = 0 \<or> y = ?res - 1")
    case True
    then show ?thesis
      using waveEquation_boundary [OF xy(1,2)] i xy(3) by (simp add: nxt)
  next
    case False
    then have x: "1 \<le> x" "x < ?res - 1" and y: "1 \<le> y" "y < ?res - 1" using xy by arith+
    show ?thesis
      unfolding waveEquation_interior [OF len x y] by (rule newHeight_zero [OF cur prev x y])
  qed
  then show "heightNext (waveEquation s) ! i = replicate (?res * ?res) 0 ! i"
    unfolding xy(3) using i by simp
qed



section \<open>The all-zero field stays zero\<close>



section \<open>Impacts are queued, never applied, by \<open>addRipple\<close>\<close>

text \<open>
  C8. An impact whose normalised coordinate \<open>u = x / 20 + 0.5\<close> or \<open>v = z / 20 + 0.5\<close>
  lies outside \<open>[0, 1]\<close> is dropped without an error: \<open>addRipple\<close> returns the
  simulation state it was given, in the CPU class (with or without delegation) and in
  the GPU class alike, so every later step behaves as if the call had never been made.
\<close>

theorem addRipple_out_of_bounds_noop:
  assumes "x / 20 + 0.5 < 0 \<or> x / 20 + 0.5 > 1 \<or> z / 20 + 0.5 < 0 \<or> z / 20 + 0.5 > 1"
  shows "addRipple s x z strength = s \<and> gpu_addRipple g x z strength = g"
proof -
  have g: "gpu_addRipple g' x z strength = g'" for g'
    using assms by (auto simp: gpu_addRipple_def Let_def)
  have "addRipple s x z strength = s"
    using assms g by (auto simp: addRipple_def Let_def split: bool.splits option.splits)
  with g show ?thesis by simp
qed

text \<open>The spec's example: world \<open>x = 20\<close> is the normalised coordinate \<open>(1.5, 0.5)\<close>.\<close>

theorem addRipple_out_of_bounds_noop_witness:
  "((20::real) / 20 + 0.5 < 0 \<or> (20::real) / 20 + 0.5 > 1 \<or>
    (0::real) / 20 + 0.5 < 0 \<or> (0::real) / 20 + 0.5 > 1)
   \<and> addRipple (RippleSimulation_new 16) 20 0 0.5 = RippleSimulation_new 16
   \<and> gpu_addRipple (GPURippleSimulation_new 16) 20 0 0.5 = GPURippleSimulation_new 16"
  using addRipple_out_of_bounds_noop
    [of 20 0 "RippleSimulation_new 16" "0.5" "GPURippleSimulation_new 16"]
  by simp

text \<open>
  C10. \<open>addRipple\<close> leaves every height buffer and every exposed texture as it was. For an
  in-bounds event it appends exactly one entry to the pending queue (the queue of the GPU
  object when the call is delegated) and changes nothing else; for any other event it
  changes nothing at all.
\<close>

theorem addRipple_frame:
  "heightCurrent (addRipple s x z strength) = heightCurrent s \<and>
   heightPrevious (addRipple s x z strength) = heightPrevious s \<and>
   heightNext (addRipple s x z strength) = heightNext s \<and>
   heightTexture (addRipple s x z strength) = heightTexture s \<and>
   textureA (gpu_addRipple g x z strength) = textureA g \<and>
   textureB (gpu_addRipple g x z strength) = textureB g \<and>
   gpu_getHeightTexture (gpu_addRipple g x z strength) = gpu_getHeightTexture g \<and>
   (if 0 \<le> x / 20 + 0.5 \<and> x / 20 + 0.5 \<le> 1 \<and> 0 \<le> z / 20 + 0.5 \<and> z / 20 + 0.5 \<le> 1 then
      gpu_addRipple g x z strength =
        g\<lparr>pendingImpacts := pendingImpacts g @
            [\<lparr>imp_x = (x / 20 + 0.5) * real (gpu_resolution g),
              imp_y = (z / 20 + 0.5) * real (gpu_resolution g), imp_strength = strength\<rparr>]\<rparr> \<and>
      (if useGPU s \<and> gpuSimulation s \<noteq> None then
         addRipple s x z strength =
           s\<lparr>gpuSimulation := Some (gpu_addRipple (the (gpuSimulation s)) x z strength)\<rparr>
       else
         addRipple s x z strength =
           s\<lparr>ripples := ripples s @
               [\<lparr>rip_u = x / 20 + 0.5, rip_v = z / 20 + 0.5, rip_strength = strength\<rparr>]\<rparr>)
    else gpu_addRipple g x z strength = g \<and> addRipple s x z strength = s)"
  by (auto simp: addRipple_def gpu_addRipple_def gpu_getHeightTexture_def Let_def
      split: bool.splits option.splits texture_ref.splits)

theorem addRipple_frame_witness:
  "heightCurrent (addRipple (RippleSimulation_new 2) 0 0 1) = [0, 0, 0, 0] \<and>
   ripples (addRipple (RippleSimulation_new 2) 0 0 1) =
     [\<lparr>rip_u = 1 / 2, rip_v = 1 / 2, rip_strength = 1\<rparr>] \<and>
   pendingImpacts (gpu_addRipple (GPURippleSimulation_new 2) 0 0 1) =
     [\<lparr>imp_x = 1, imp_y = 1, imp_strength = 1\<rparr>]"
  using addRipple_frame [of "RippleSimulation_new 2" 0 0 1 "GPURippleSimulation_new 2"]
  by (simp add: RippleSimulation_new_def GPURippleSimulation_new_def buildComputeNodes_def
      numeral_eq_Suc)

section \<open>The position-form update of the CPU path\<close>

text \<open>
  C4. In the CPU path, for every interior cell the height committed by one step is
  \<open>next = (2 \<times> current - previous + waveSpeed\<^sup>2 \<times> laplacian) \<times> damping\<close>, where
  \<open>laplacian = left + right + up + down - 4 \<times> center\<close> is read from the current grid (the
  grid after the pending impacts were added). For a cell whose distance to the nearest
  edge is below \<open>edgeFadeWidth\<close>, that value is then multiplied by
  \<open>absorption = edgeFadeStrength + (1 - edgeFadeStrength) \<times> smoothstep(t)\<close> with
  \<open>t = distanceToNearestEdge / edgeFadeWidth\<close> and \<open>smoothstep(t) = t\<^sup>2 \<times> (3 - 2t)\<close>;
  for every other interior cell it is committed as it is.
\<close>

theorem cpu_interior_update:
  assumes wf: "wellFormed s" and cpu: "\<not> (useGPU s \<and> gpuSimulation s \<noteq> None)"
    and x: "1 \<le> x" "x < resolution s - 1" and y: "1 \<le> y" "y < resolution s - 1"
  shows "heightCurrent (update s) ! (y * resolution s + x) =
    (let res = resolution s;
         idx = y * res + x;
         cur = heightCurrent (injectRipples s);
         prev = heightPrevious s;
         laplacian = cur ! (idx - 1) + cur ! (idx + 1) + cur ! (idx - res) + cur ! (idx + res)
                     - 4 * cur ! idx;
         next = (2 * cur ! idx - prev ! idx + (waveSpeed s)\<^sup>2 * laplacian) * damping s;
         distanceToNearestEdge = real (min (min x (res - 1 - x)) (min y (res - 1 - y)));
         t = distanceToNearestEdge / edgeFadeWidth s;
         smoothstep = t\<^sup>2 * (3 - 2 * t);
         absorption = edgeFadeStrength s + (1 - edgeFadeStrength s) * smoothstep
     in if distanceToNearestEdge < edgeFadeWidth s then next * absorption else next)"
proof -
  let ?s = "injectRipples s"
  let ?res = "resolution s"
  define d where "d = real (min (min x (?res - 1 - x)) (min y (?res - 1 - y)))"
  have len: "length (heightNext ?s) = resolution ?s * resolution ?s"
    using wf by (simp add: wellFormed_def)
  have upd: "heightCurrent (update s) ! (y * ?res + x) = newHeight ?s x y"
    using waveEquation_interior [OF len] x y by (simp add: update_heightCurrent [OF cpu])
  have ix: "int ?res - 1 - int x = int (?res - 1 - x)" using x by linarith
  have iy: "int ?res - 1 - int y = int (?res - 1 - y)" using y by linarith
  have "min (min (min (int x) (int (?res - 1 - x))) (int y)) (int (?res - 1 - y))
      = int (min (min x (?res - 1 - x)) (min y (?res - 1 - y)))"
    by (simp only: of_nat_min min.assoc)
  then have md: "real_of_int (min (min (min (int x) (int ?res - 1 - int x)) (int y))
      (int ?res - 1 - int y)) = d"
    unfolding ix iy d_def by (simp only: of_int_of_nat_eq)
  have "1 \<le> min (min x (?res - 1 - x)) (min y (?res - 1 - y))"
    using x y by (simp only: min.bounded_iff) arith
  then have dpos: "1 \<le> d" unfolding d_def by (metis of_nat_1 of_nat_le_iff)
  have gef: "getEdgeFactor ?s x y ?res =
      (if d \<ge> edgeFadeWidth s then 1
       else (d / edgeFadeWidth s) * (d / edgeFadeWidth s) * (3 - 2 * (d / edgeFadeWidth s)))"
    unfolding getEdgeFactor_def Let_def md by simp
  have nh: "newHeight ?s x y =
      (let h' = (2 * heightCurrent ?s ! (y * ?res + x) - heightPrevious s ! (y * ?res + x)
                 + (waveSpeed s)\<^sup>2 *
                   (heightCurrent ?s ! (y * ?res + x - 1) + heightCurrent ?s ! (y * ?res + x + 1)
                    + heightCurrent ?s ! (y * ?res + x - ?res) + heightCurrent ?s ! (y * ?res + x + ?res)
                    - 4 * heightCurrent ?s ! (y * ?res + x))) * damping s;
           ef = getEdgeFactor ?s x y ?res
       in if ef < 1 then h' * (edgeFadeStrength s + (1 - edgeFadeStrength s) * ef) else h')"
    unfolding newHeight_def Let_def by (simp add: power2_eq_square)
  show ?thesis
  proof (cases "d < edgeFadeWidth s")
    case False
    then have "getEdgeFactor ?s x y ?res = 1" unfolding gef by simp
    with False show ?thesis
      unfolding upd nh Let_def d_def [symmetric] by simp
  next
    case True
    let ?t = "d / edgeFadeWidth s"
    have t: "0 \<le> ?t" "?t < 1" using True dpos by auto
    have ef: "getEdgeFactor ?s x y ?res = ?t * ?t * (3 - 2 * ?t)"
      unfolding gef using True by simp
    have "getEdgeFactor ?s x y ?res < 1"
      unfolding ef using t by (rule smoothstep_less_one)
    with True show ?thesis
      unfolding upd nh Let_def d_def [symmetric] by (simp add: ef power2_eq_square)
  qed
qed

theorem cpu_interior_update_witness:
  "wellFormed ((RippleSimulation_new 3)\<lparr>heightCurrent := [0, 1, 0, 2, 5, 3, 0, 4, 0]\<rparr>) \<and>
   heightCurrent (update ((RippleSimulation_new 3)\<lparr>heightCurrent := [0, 1, 0, 2, 5, 3, 0, 4, 0]\<rparr>)) ! 4
     = (10 - 0.09 * 10) * 0.985 * (0.92 + 0.08 * (73 / 15625))"
proof -
  let ?s = "(RippleSimulation_new 3)\<lparr>heightCurrent := [0, 1, 0, 2, 5, 3, 0, 4, 0]\<rparr>"
  have wf: "wellFormed ?s" by (simp add: wellFormed_def RippleSimulation_new_def)
  have cpu: "\<not> (useGPU ?s \<and> gpuSimulation ?s \<noteq> None)" by (simp add: RippleSimulation_new_def)
  have r: "resolution ?s = 3" by (simp add: RippleSimulation_new_def)
  have inj: "heightCurrent (injectRipples ?s) = [0, 1, 0, 2, 5, 3, 0, 4, 0]"
    by (simp add: injectRipples_def RippleSimulation_new_def)
  have prev: "heightPrevious ?s = [0, 0, 0, 0, 0, 0, 0, 0, 0]"
    by (simp add: RippleSimulation_new_def numeral_eq_Suc)
  have cfg: "waveSpeed ?s = 0.3" "damping ?s = 0.985" "edgeFadeWidth ?s = 25" "edgeFadeStrength ?s = 0.92"
    by (simp_all add: RippleSimulation_new_def)
  have "heightCurrent (update ?s) ! 4 = (10 - 0.09 * 10) * 0.985 * (0.92 + 0.08 * (73 / 15625))"
    using cpu_interior_update [OF wf cpu, of 1 1]
    unfolding r inj prev cfg Let_def by (simp add: power2_eq_square)
  with wf show ?thesis by simp
qed

section \<open>Normal channels\<close>

text \<open>
  C6, as the code has it. The two CPU classes fill the normal channels differently.
  In the CPU class with delegation, after a step every cell of the exposed texture has
  \<open>normal.x = (left.height - right.height) \<times> 2\<close> and
  \<open>normal.y = (up.height - down.height) \<times> 2\<close>, the neighbour heights being those of the
  same texture, with the cell itself standing in for a neighbour beyond the border.
  The CPU class without delegation writes the constants \<open>0\<close> and \<open>1\<close> into the two
  channels of every cell.
\<close>

theorem normals_by_path:
  assumes wf: "wellFormed s" and cpu: "\<not> (useGPU s \<and> gpuSimulation s \<noteq> None)"
    and x: "x < resolution s" and y: "y < resolution s"
  shows "(let res = resolution s;
              data = heightTexture (update s);
              i = y * res + x;
              left = data ! ((if x > 0 then i - 1 else i) * 4);
              right = data ! ((if x < res - 1 then i + 1 else i) * 4);
              up = data ! ((if y > 0 then i - res else i) * 4);
              down = data ! ((if y < res - 1 then i + res else i) * 4)
          in data ! (i * 4 + 2) = (left - right) * 2 \<and> data ! (i * 4 + 3) = (up - down) * 2)
    \<and> (let res = resolution s;
              data = heightTexture (update_plain s);
              i = y * res + x
          in data ! (i * 4 + 2) = 0 \<and> data ! (i * 4 + 3) = 1)"
proof -
  let ?res = "resolution s"
  let ?s = "swapBuffers (waveEquation (injectRipples s))"
  let ?i = "y * ?res + x"
  have len: "length (heightTexture ?s) = resolution ?s * resolution ?s * 4"
    using wf by (simp add: wellFormed_def)
  have r: "resolution ?s = ?res" by simp
  note nth = updateTexture_nth [OF len, unfolded r Let_def]
  have h0: "heightTexture (updateTexture ?s) ! ((y' * ?res + x') * 4) = heightCurrent ?s ! (y' * ?res + x')"
    if "x' < ?res" "y' < ?res" for x' y'
    using nth [OF that, of 0] by simp
  have L: "heightTexture (updateTexture ?s) ! ((if x > 0 then ?i - 1 else ?i) * 4)
         = (if x > 0 then heightCurrent ?s ! (?i - 1) else heightCurrent ?s ! ?i)"
  proof (cases "x > 0")
    case True
    then have "?i - 1 = y * ?res + (x - 1)" by simp
    with True show ?thesis using h0 [of "x - 1" y] x y by simp
  next
    case False
    then show ?thesis using h0 [OF x y] by simp
  qed
  have R: "heightTexture (updateTexture ?s) ! ((if x < ?res - 1 then ?i + 1 else ?i) * 4)
         = (if x < ?res - 1 then heightCurrent ?s ! (?i + 1) else heightCurrent ?s ! ?i)"
  proof (cases "x < ?res - 1")
    case True
    then have "?i + 1 = y * ?res + (x + 1)" "x + 1 < ?res" by simp_all
    with True show ?thesis using h0 [of "x + 1" y] y by simp
  next
    case False
    then show ?thesis using h0 [OF x y] by simp
  qed
  have U: "heightTexture (updateTexture ?s) ! ((if y > 0 then ?i - ?res else ?i) * 4)
         = (if y > 0 then heightCurrent ?s ! (?i - ?res) else heightCurrent ?s ! ?i)"
  proof (cases "y > 0")
    case True
    then have "?i - ?res = (y - 1) * ?res + x" by (cases y) simp_all
    with True show ?thesis using h0 [of x "y - 1"] x y by simp
  next
    case False
    then show ?thesis using h0 [OF x y] by simp
  qed
  have D: "heightTexture (updateTexture ?s) ! ((if y < ?res - 1 then ?i + ?res else ?i) * 4)
         = (if y < ?res - 1 then heightCurrent ?s ! (?i + ?res) else heightCurrent ?s ! ?i)"
  proof (cases "y < ?res - 1")
    case True
    have e: "?i + ?res = (y + 1) * ?res + x" by simp
    have "y + 1 < ?res" using True by simp
    from h0 [OF x this] show ?thesis
      unfolding e [symmetric] by (simp only: True if_True)
  next
    case False
    then show ?thesis using h0 [OF x y] by simp
  qed
  have n2: "heightTexture (updateTexture ?s) ! (?i * 4 + 2) =
      ((if x > 0 then heightCurrent ?s ! (?i - 1) else heightCurrent ?s ! ?i)
       - (if x < ?res - 1 then heightCurrent ?s ! (?i + 1) else heightCurrent ?s ! ?i)) * 2"
    using nth [OF x y, of 2] by simp
  have n3: "heightTexture (updateTexture ?s) ! (?i * 4 + 3) =
      ((if y > 0 then heightCurrent ?s ! (?i - ?res) else heightCurrent ?s ! ?i)
       - (if y < ?res - 1 then heightCurrent ?s ! (?i + ?res) else heightCurrent ?s ! ?i)) * 2"
    using nth [OF x y, of 3] by simp
  have c1: "(let res = resolution s;
              data = heightTexture (update s);
              i = y * res + x;
              left = data ! ((if x > 0 then i - 1 else i) * 4);
              right = data ! ((if x < res - 1 then i + 1 else i) * 4);
              up = data ! ((if y > 0 then i - res else i) * 4);
              down = data ! ((if y < res - 1 then i + res else i) * 4)
          in data ! (i * 4 + 2) = (left - right) * 2 \<and> data ! (i * 4 + 3) = (up - down) * 2)"
    unfolding Let_def update_heightTexture(1) [OF cpu] L R U D n2 n3 by (rule conjI) (rule refl)+
  have i: "?i < resolution ?s * resolution ?s" using cell_index_less [OF x y] by simp
  have c2: "(let res = resolution s;
              data = heightTexture (update_plain s);
              i = y * res + x
          in data ! (i * 4 + 2) = 0 \<and> data ! (i * 4 + 3) = 1)"
    unfolding Let_def update_plain_def
    using updateTexture_plain_nth [OF len i, of 2] updateTexture_plain_nth [OF len i, of 3]
    by simp
  from c1 c2 show ?thesis by (intro conjI)
qed

theorem normals_by_path_witness:
  "wellFormed ((RippleSimulation_new 3)\<lparr>heightCurrent := [0, 1, 0, 2, 5, 3, 0, 4, 0]\<rparr>) \<and>
   heightTexture (update ((RippleSimulation_new 3)\<lparr>heightCurrent := [0, 1, 0, 2, 5, 3, 0, 4, 0]\<rparr>)) ! 14
     = (heightTexture (update ((RippleSimulation_new 3)\<lparr>heightCurrent := [0, 1, 0, 2, 5, 3, 0, 4, 0]\<rparr>)) ! 12
        - heightTexture (update ((RippleSimulation_new 3)\<lparr>heightCurrent := [0, 1, 0, 2, 5, 3, 0, 4, 0]\<rparr>)) ! 16) * 2 \<and>
   heightTexture (update_plain ((RippleSimulation_new 3)\<lparr>heightCurrent := [0, 1, 0, 2, 5, 3, 0, 4, 0]\<rparr>)) ! 14 = 0 \<and>
   heightTexture (update_plain ((RippleSimulation_new 3)\<lparr>heightCurrent := [0, 1, 0, 2, 5, 3, 0, 4, 0]\<rparr>)) ! 15 = 1"
proof -
  let ?s = "(RippleSimulation_new 3)\<lparr>heightCurrent := [0, 1, 0, 2, 5, 3, 0, 4, 0]\<rparr>"
  have wf: "wellFormed ?s" by (simp add: wellFormed_def RippleSimulation_new_def)
  have cpu: "\<not> (useGPU ?s \<and> gpuSimulation ?s \<noteq> None)" by (simp add: RippleSimulation_new_def)
  have r: "resolution ?s = 3" by (simp add: RippleSimulation_new_def)
  have x: "0 < resolution ?s" and y: "1 < resolution ?s" unfolding r by simp_all
  show ?thesis
    using wf normals_by_path [OF wf cpu x y]
    unfolding r Let_def
    by simp
qed

text \<open>
  The claim as stated fails in the CPU class without delegation: after one step of a
  freshly constructed \<open>3 \<times> 3\<close> simulation, cell \<open>(0, 1)\<close> holds \<open>1\<close> in the normal.y
  channel (index \<open>3 \<times> 4 + 3\<close>), while the heights of its upper and lower neighbours
  (indices \<open>0 \<times> 4\<close> and \<open>6 \<times> 4\<close>) are both \<open>0\<close>.
\<close>

theorem plain_class_normal_counterexample:
  "heightTexture (update_plain (RippleSimulation_new 3)) ! 15
   \<noteq> (heightTexture (update_plain (RippleSimulation_new 3)) ! 0
       - heightTexture (update_plain (RippleSimulation_new 3)) ! 24) * 2"
proof -
  define s where "s = RippleSimulation_new 3"
  let ?s' = "swapBuffers (waveEquation (injectRipples s))"
  have q: "ripples s = []" unfolding s_def by (simp add: RippleSimulation_new_def)
  have r: "resolution s = 3" unfolding s_def by (simp add: RippleSimulation_new_def)
  have cur: "heightCurrent s = replicate (resolution s * resolution s) 0"
    and prev: "heightPrevious s = replicate (resolution s * resolution s) 0"
    and nxt: "heightNext s = replicate (resolution s * resolution s) 0"
    and tex: "length (heightTexture s) = resolution s * resolution s * 4"
    unfolding s_def by (simp_all add: RippleSimulation_new_def)
  have h: "heightNext (waveEquation (injectRipples s)) = replicate 9 0"
    using waveEquation_zero [OF cur prev nxt] by (simp add: injectRipples_empty [OF q] r)
  have len: "length (heightTexture ?s') = resolution ?s' * resolution ?s' * 4"
    using tex by (simp add: injectRipples_empty [OF q])
  have i0: "0 < resolution ?s' * resolution ?s'" and i3: "3 < resolution ?s' * resolution ?s'"
    and i6: "6 < resolution ?s' * resolution ?s'"
    by (simp_all add: injectRipples_empty [OF q] r)
  have a: "heightTexture (update_plain s) ! 15 = 1"
    using updateTexture_plain_nth [OF len i3, of 3] by (simp add: update_plain_def)
  have u: "heightTexture (update_plain s) ! 0 = 0"
    using updateTexture_plain_nth [OF len i0, of 0] by (simp add: update_plain_def h)
  have d: "heightTexture (update_plain s) ! 24 = 0"
    using updateTexture_plain_nth [OF len i6, of 0] by (simp add: update_plain_def h)
  show ?thesis
    unfolding s_def [symmetric] using a u d by simp
qed


section \<open>The concrete scenario\<close>

text \<open>
  C1, as the code has it, for the CPU path. Resolution 16, waveSpeed 0.3, damping 0.99,
  edge fade disabled (\<open>edgeFadeWidth = 0\<close>), one impact of strength 1 at grid cell
  \<open>(8, 8)\<close> (world position \<open>(0, 0)\<close>) on an all-zero field, then exactly one step.
  Cell \<open>(x, y)\<close> has index \<open>y \<times> 16 + x\<close>: the centre is 136, its neighbours are 135,
  137, 120 and 152. The centre height is \<open>1.782\<close>, above \<open>1.0\<close>: the position-form
  update reads the injected height as displacement gained since the previous step.
  The centre is strictly greater than each of its four immediate neighbours.
\<close>

theorem single_impact_one_step:
  "heightCurrent (update (addRipple ((RippleSimulation_new 16)\<lparr>damping := 0.99, edgeFadeWidth := 0\<rparr>) 0 0 1)) ! 136
     = 1782 / 1000 \<and>
   1 < heightCurrent (update (addRipple ((RippleSimulation_new 16)\<lparr>damping := 0.99, edgeFadeWidth := 0\<rparr>) 0 0 1)) ! 136 \<and>
   heightCurrent (update (addRipple ((RippleSimulation_new 16)\<lparr>damping := 0.99, edgeFadeWidth := 0\<rparr>) 0 0 1)) ! 135
     < heightCurrent (update (addRipple ((RippleSimulation_new 16)\<lparr>damping := 0.99, edgeFadeWidth := 0\<rparr>) 0 0 1)) ! 136 \<and>
   heightCurrent (update (addRipple ((RippleSimulation_new 16)\<lparr>damping := 0.99, edgeFadeWidth := 0\<rparr>) 0 0 1)) ! 137
     < heightCurrent (update (addRipple ((RippleSimulation_new 16)\<lparr>damping := 0.99, edgeFadeWidth := 0\<rparr>) 0 0 1)) ! 136 \<and>
   heightCurrent (update (addRipple ((RippleSimulation_new 16)\<lparr>damping := 0.99, edgeFadeWidth := 0\<rparr>) 0 0 1)) ! 120
     < heightCurrent (update (addRipple ((RippleSimulation_new 16)\<lparr>damping := 0.99, edgeFadeWidth := 0\<rparr>) 0 0 1)) ! 136 \<and>
   heightCurrent (update (addRipple ((RippleSimulation_new 16)\<lparr>damping := 0.99, edgeFadeWidth := 0\<rparr>) 0 0 1)) ! 152
     < heightCurrent (update (addRipple ((RippleSimulation_new 16)\<lparr>damping := 0.99, edgeFadeWidth := 0\<rparr>) 0 0 1)) ! 136"
proof -
  define q :: real where "q = (1 - sqrt 2 / 3) * (1 - sqrt 2 / 3)"
  have q: "0 \<le> q" "q \<le> 1" unfolding q_def by (rule falloff_sqrt_2)+
  define H where "H = heightCurrent (update (addRipple ((RippleSimulation_new 16)\<lparr>damping := 0.99, edgeFadeWidth := 0\<rparr>) 0 0 1))"
  have h: "H ! 136 = 1782 / 1000"
    "H ! 135 = (8 / 9 + 0.09 * (2 * q - 6 / 9)) * 0.99"
    "H ! 137 = (8 / 9 + 0.09 * (2 * q - 6 / 9)) * 0.99"
    "H ! 120 = (8 / 9 + 0.09 * (2 * q - 6 / 9)) * 0.99"
    "H ! 152 = (8 / 9 + 0.09 * (2 * q - 6 / 9)) * 0.99"
    unfolding H_def q_def using cpu_single_impact by blast+
  have nb: "(8 / 9 + 0.09 * (2 * q - 6 / 9)) * 0.99 < 1782 / 1000"
    using q by (simp add: field_simps)
  have one: "1 < H ! 136" unfolding h by simp
  have l: "H ! 135 < H ! 136" "H ! 137 < H ! 136" "H ! 120 < H ! 136" "H ! 152 < H ! 136"
    unfolding h by (rule nb)+
  show ?thesis
    unfolding H_def [symmetric]
    using h(1) one l by (intro conjI)
qed


text \<open>The claim as stated fails in the CPU path: the centre height is not below \<open>1.0\<close>.\<close>

theorem cpu_centre_not_below_one:
  "\<not> heightCurrent (update (addRipple ((RippleSimulation_new 16)\<lparr>damping := 0.99, edgeFadeWidth := 0\<rparr>) 0 0 1)) ! 136 < 1"
  using cpu_single_impact by simp

section \<open>Squared heights from one step to the next\<close>

text \<open>
  C3, as the code has it, for the CPU path. The sum of squared heights is not monotone:
  a wave that is moving keeps moving, and the sum can rise from one step to the next
  although \<open>damping < 1\<close> and no impact is pending. What one step with an empty queue
  guarantees is the effect of the damping factor on the update itself: with
  \<open>edgeFadeStrength\<close> in \<open>[0, 1]\<close>, the sum over the interior cells of the squared new
  height is at most \<open>damping\<^sup>2\<close> times the sum over the interior cells of the squared
  undamped value \<open>2 \<times> current - previous + waveSpeed\<^sup>2 \<times> laplacian\<close>.
\<close>

theorem damped_step_energy_bound:
  assumes wf: "wellFormed s" and cpu: "\<not> (useGPU s \<and> gpuSimulation s \<noteq> None)"
    and q: "ripples s = []"
    and e: "0 \<le> edgeFadeStrength s" "edgeFadeStrength s \<le> 1"
  shows "(let res = resolution s;
              interior = List.product [1..<res - 1] [1..<res - 1];
              cur = heightCurrent s;
              prev = heightPrevious s
          in (\<Sum>(y, x)\<leftarrow>interior. (heightCurrent (update s) ! (y * res + x))\<^sup>2)
             \<le> (damping s)\<^sup>2 *
               (\<Sum>(y, x)\<leftarrow>interior.
                  (2 * cur ! (y * res + x) - prev ! (y * res + x)
                   + (waveSpeed s)\<^sup>2 *
                     (cur ! (y * res + x - 1) + cur ! (y * res + x + 1)
                      + cur ! (y * res + x - res) + cur ! (y * res + x + res)
                      - 4 * cur ! (y * res + x)))\<^sup>2))"
proof -
  let ?res = "resolution s"
  let ?int = "List.product [1..<?res - 1] [1..<?res - 1]"
  let ?L = "\<lambda>(y, x). (2 * heightCurrent s ! (y * ?res + x) - heightPrevious s ! (y * ?res + x)
                   + (waveSpeed s)\<^sup>2 *
                     (heightCurrent s ! (y * ?res + x - 1) + heightCurrent s ! (y * ?res + x + 1)
                      + heightCurrent s ! (y * ?res + x - ?res) + heightCurrent s ! (y * ?res + x + ?res)
                      - 4 * heightCurrent s ! (y * ?res + x)))\<^sup>2"
  have cell: "(case k of (y, x) \<Rightarrow> (heightCurrent (update s) ! (y * ?res + x))\<^sup>2)
              \<le> (damping s)\<^sup>2 * ?L k" if "k \<in> set ?int" for k
  proof -
    obtain y x where k: "k = (y, x)" by (cases k)
    with that have x: "1 \<le> x" "x < ?res - 1" and y: "1 \<le> y" "y < ?res - 1" by auto
    have "heightCurrent (update s) ! (y * ?res + x) = newHeight s x y"
      using update_interior [OF wf cpu x y] by (simp add: injectRipples_empty [OF q])
    then show ?thesis
      unfolding k prod.case using newHeight_damped [OF x y e] by simp
  qed
  have "(\<Sum>k\<leftarrow>?int. case k of (y, x) \<Rightarrow> (heightCurrent (update s) ! (y * ?res + x))\<^sup>2)
        \<le> (\<Sum>k\<leftarrow>?int. (damping s)\<^sup>2 * ?L k)"
    by (rule sum_list_mono) (rule cell)
  also have "\<dots> = (damping s)\<^sup>2 * (\<Sum>k\<leftarrow>?int. ?L k)"
    by (rule sum_list_const_mult)
  finally have c1: "(\<Sum>k\<leftarrow>?int. case k of (y, x) \<Rightarrow> (heightCurrent (update s) ! (y * ?res + x))\<^sup>2)
        \<le> (damping s)\<^sup>2 * (\<Sum>k\<leftarrow>?int. ?L k)" .
  from c1 show ?thesis unfolding Let_def .
qed

theorem damped_step_energy_bound_witness:
  "wellFormed ((RippleSimulation_new 3)\<lparr>heightCurrent := [0, 1, 0, 2, 5, 3, 0, 4, 0]\<rparr>) \<and>
   ripples ((RippleSimulation_new 3)\<lparr>heightCurrent := [0, 1, 0, 2, 5, 3, 0, 4, 0]\<rparr>) = [] \<and>
   (heightCurrent (update ((RippleSimulation_new 3)\<lparr>heightCurrent := [0, 1, 0, 2, 5, 3, 0, 4, 0]\<rparr>)) ! 4)\<^sup>2
     \<le> (197 / 200)\<^sup>2 * (91 / 10)\<^sup>2"
proof -
  define s where "s = (RippleSimulation_new 3)\<lparr>heightCurrent := [0, 1, 0, 2, 5, 3, 0, 4, 0]\<rparr>"
  have wf: "wellFormed s" unfolding s_def by (simp add: wellFormed_def RippleSimulation_new_def)
  have cpu: "\<not> (useGPU s \<and> gpuSimulation s \<noteq> None)"
    unfolding s_def by (simp add: RippleSimulation_new_def)
  have q: "ripples s = []" unfolding s_def by (simp add: RippleSimulation_new_def)
  have e: "0 \<le> edgeFadeStrength s" "edgeFadeStrength s \<le> 1"
    unfolding s_def by (simp_all add: RippleSimulation_new_def)
  have cfg: "resolution s = 3" "waveSpeed s = 3 / 10" "damping s = 197 / 200"
    "heightCurrent s = [0, 1, 0, 2, 5, 3, 0, 4, 0]" "heightPrevious s = [0, 0, 0, 0, 0, 0, 0, 0, 0]"
    unfolding s_def by (simp_all add: RippleSimulation_new_def numeral_eq_Suc)
  have int: "List.product [1..<3 - 1] [1..<3 - 1] = [(1, 1 :: nat)]"
    by (simp add: numeral_2_eq_2)
  have "(heightCurrent (update s) ! 4)\<^sup>2 \<le> (197 / 200)\<^sup>2 * (91 / 10)\<^sup>2"
    using damped_step_energy_bound [OF wf cpu q e]
    unfolding Let_def cfg int by (simp add: power2_eq_square)
  with wf q show ?thesis unfolding s_def by simp
qed


text \<open>
  The claim as stated fails: on a \<open>3 \<times> 3\<close> grid with damping 0.99 and edge fade
  disabled, the state after one impact at the centre and one step has an empty queue and
  the squared-height sum \<open>1.782\<^sup>2\<close>; the next step raises it to \<open>1.9032552\<^sup>2\<close>.
\<close>

theorem energy_rises_counterexample:
  "ripples (update (addRipple ((RippleSimulation_new 3)\<lparr>damping := 0.99, edgeFadeWidth := 0\<rparr>) 0 0 1)) = [] \<and>
   damping (update (addRipple ((RippleSimulation_new 3)\<lparr>damping := 0.99, edgeFadeWidth := 0\<rparr>) 0 0 1)) < 1 \<and>
   \<not> (\<Sum>h\<leftarrow>heightCurrent (update (update (addRipple
           ((RippleSimulation_new 3)\<lparr>damping := 0.99, edgeFadeWidth := 0\<rparr>) 0 0 1))). h\<^sup>2)
     \<le> (\<Sum>h\<leftarrow>heightCurrent (update (addRipple
           ((RippleSimulation_new 3)\<lparr>damping := 0.99, edgeFadeWidth := 0\<rparr>) 0 0 1)). h\<^sup>2)"
proof -
  let ?s0 = "(RippleSimulation_new 3)\<lparr>damping := 0.99, edgeFadeWidth := 0\<rparr>"
  let ?rp = "\<lparr>rip_u = 1 / 2, rip_v = 1 / 2, rip_strength = 1\<rparr>"
  define sA where "sA = addRipple ?s0 0 0 1"
  define s1 where "s1 = update sA"
  have sA: "sA = ?s0\<lparr>ripples := [?rp]\<rparr>"
    unfolding sA_def by (simp add: addRipple_def RippleSimulation_new_def Let_def)
  have cpuA: "\<not> (useGPU sA \<and> gpuSimulation sA \<noteq> None)"
    unfolding sA by (simp add: RippleSimulation_new_def)
  have cfgA: "resolution sA = 3" "waveSpeed sA = 3 / 10" "damping sA = 99 / 100" "edgeFadeWidth sA = 0"
    unfolding sA by (simp_all add: RippleSimulation_new_def)
  have bufA: "heightPrevious sA = replicate 9 0" "heightNext sA = replicate 9 0"
    unfolding sA by (simp_all add: RippleSimulation_new_def)
  have curA: "heightCurrent (injectRipples sA) = injectRipple 3 ?rp (replicate (3 * 3) 0)"
    unfolding sA by (simp add: injectRipples_def RippleSimulation_new_def)
  have cell: "heightCurrent (injectRipples sA) ! (y * 3 + x) =
     (if sqrt (real_of_int ((int x - 1) * (int x - 1) + (int y - 1) * (int y - 1))) \<le> 3
      then (1 - sqrt (real_of_int ((int x - 1) * (int x - 1) + (int y - 1) * (int y - 1))) / 3)
         * (1 - sqrt (real_of_int ((int x - 1) * (int x - 1) + (int y - 1) * (int y - 1))) / 3)
      else 0)" if "x < 3" "y < 3" for x y
  proof -
    have "y * 3 + x < 3 * 3" using that by simp
    then show ?thesis
      unfolding curA using injectRipple_nth [of "replicate (3 * 3) 0" 3 x y ?rp] that
      by (simp add: Let_def)
  qed
  have c: "heightCurrent (injectRipples sA) ! 4 = 1" "heightCurrent (injectRipples sA) ! 3 = 4 / 9"
    "heightCurrent (injectRipples sA) ! 5 = 4 / 9" "heightCurrent (injectRipples sA) ! Suc 0 = 4 / 9"
    "heightCurrent (injectRipples sA) ! 7 = 4 / 9"
    using cell [of 1 1] cell [of 0 1] cell [of 2 1] cell [of 1 0] cell [of 1 2] by simp_all
  have efA: "getEdgeFactor (injectRipples sA) (Suc 0) (Suc 0) 3 = 1"
    unfolding getEdgeFactor_def Let_def by (simp add: cfgA)
  have nhA: "newHeight (injectRipples sA) (Suc 0) (Suc 0) = 1782 / 1000"
    unfolding newHeight_def Let_def by (simp add: cfgA bufA efA c)
  have cur1: "heightCurrent s1 = (replicate 9 0)[4 := 1782 / 1000]"
    unfolding s1_def update_heightCurrent(1) [OF cpuA]
    by (simp add: waveEquation_res3 cfgA bufA nhA)
  have prev1: "heightPrevious s1 = heightCurrent (injectRipples sA)"
    unfolding s1_def by (rule update_heightCurrent(2) [OF cpuA])
  have next1: "heightNext s1 = replicate 9 0"
    unfolding s1_def update_heightCurrent(3) [OF cpuA] by (rule bufA)
  have cfg1: "resolution s1 = 3" "waveSpeed s1 = 3 / 10" "damping s1 = 99 / 100" "edgeFadeWidth s1 = 0"
    "ripples s1 = []"
    unfolding s1_def update_config [OF cpuA] by (simp_all add: cfgA)
  have cpu1: "\<not> (useGPU s1 \<and> gpuSimulation s1 \<noteq> None)"
    unfolding s1_def update_config [OF cpuA] by (rule cpuA)
  have inj1: "injectRipples s1 = s1" using cfg1(5) by (rule injectRipples_empty)
  have ef1: "getEdgeFactor s1 (Suc 0) (Suc 0) 3 = 1"
    unfolding getEdgeFactor_def Let_def by (simp add: cfg1)
  have nh1: "newHeight s1 (Suc 0) (Suc 0) = 19032552 / 10000000"
    unfolding newHeight_def Let_def by (simp add: cfg1 cur1 prev1 ef1 c)
  have cur2: "heightCurrent (update s1) = (replicate 9 0)[4 := 19032552 / 10000000]"
    unfolding update_heightCurrent(1) [OF cpu1] inj1
    by (simp add: waveEquation_res3 cfg1 next1 nh1)
  have "\<not> (\<Sum>h\<leftarrow>heightCurrent (update s1). h\<^sup>2) \<le> (\<Sum>h\<leftarrow>heightCurrent s1. h\<^sup>2)"
    unfolding cur1 cur2 sum_squares_single by (simp add: power2_eq_square)
  moreover have "damping s1 < 1" unfolding cfg1 by simp
  ultimately show ?thesis
    unfolding s1_def [symmetric] sA_def [symmetric] using cfg1(5) by (intro conjI)
qed

section \<open>Caustics intensity\<close>

text \<open>
  C2 says that the caustics refresh takes the 4-neighbour Laplacian of the height field
  at each cell as the curvature and writes \<open>(0.3 + curvature \<times> focusGain)\<close> scaled by the
  intensity multiplier and clamped to \<open>[0, 2]\<close>. The kernel sums channel B (normal.x) of
  the four neighbouring samples and subtracts four times channel R (height) of the
  centre. On a uniform surface of height \<open>1\<close> with zero normals, whose height Laplacian
  is \<open>0\<close>, it writes intensity \<open>0\<close>, where the claimed formula gives \<open>0.3 \<times> 0.6 = 0.18\<close>.
\<close>

theorem caustics_flat_raised_surface:
  "tex_g (computeNode 512 0.6 (\<lambda>uv. \<lparr>tex_r = 1, tex_g = 0, tex_b = 0, tex_a = 0\<rparr>)
            (replicate (512 * 512) zeroTexel) ! 0) = 0 \<and>
   specCausticIntensity 512 0.6 50 (\<lambda>uv. \<lparr>tex_r = 1, tex_g = 0, tex_b = 0, tex_a = 0\<rparr>) 0 = 18 / 100"
proof -
  have "computeNode 512 0.6 (\<lambda>uv. \<lparr>tex_r = 1, tex_g = 0, tex_b = 0, tex_a = 0\<rparr>)
            (replicate (512 * 512) zeroTexel) ! 0
        = causticsTexel 512 0.6 (\<lambda>uv. \<lparr>tex_r = 1, tex_g = 0, tex_b = 0, tex_a = 0\<rparr>) 0"
    by (rule computeNode_nth) simp_all
  then show ?thesis
    by (simp add: causticsTexel_def specCausticIntensity_def clamp_def Let_def)
qed

end
